theory Spec2Isabelle
  imports Complex_Main
begin

section \<open>Numbers, arrays and errors\<close>

text \<open>
  The program (\<^verbatim>\<open>app.py\<close>) computes option payoffs with Python floats and numpy
  \<^verbatim>\<open>float64\<close> arrays. The embedding reads every float as a real number, so arithmetic
  is exact, and every one-dimensional array as a list. The lot size is a Python
  \<^verbatim>\<open>int\<close> and stays an \<^typ>\<open>int\<close>. Where a property depends on the rounding of
  float64, the functions are given a second time with float64 arithmetic (names ending
  in \<open>_f64\<close>), and the property is stated about those.

  What Python would raise is a value of \<open>error + 'a\<close>. numpy does not raise on a
  float division by zero: it yields \<^verbatim>\<open>nan\<close> or \<^verbatim>\<open>inf\<close> and warns. No real number
  stands for such a value, so the model stops there with \<open>ZeroDivisionError\<close>.
\<close>

datatype error = ValueError | IndexError | ZeroDivisionError

definition bind_result :: "error + 'a \<Rightarrow> ('a \<Rightarrow> error + 'b) \<Rightarrow> error + 'b" where
  "bind_result m f = (case m of Inl e \<Rightarrow> Inl e | Inr v \<Rightarrow> f v)"

text \<open>\<^verbatim>\<open>xs[i]\<close> for an index that is never negative.\<close>

definition np_get :: "real list \<Rightarrow> nat \<Rightarrow> error + real" where
  "np_get xs i = (if i < length xs then Inr (xs ! i) else Inl IndexError)"

definition np_div :: "real \<Rightarrow> real \<Rightarrow> error + real" where
  "np_div a b = (if b = 0 then Inl ZeroDivisionError else Inr (a / b))"

text \<open>
  The array operations the payoff functions use: \<^verbatim>\<open>np.maximum(xs, c)\<close>,
  \<^verbatim>\<open>xs - c\<close>, \<^verbatim>\<open>c - xs\<close>, \<^verbatim>\<open>xs + ys\<close> (both operands come from the same grid, so
  their shapes agree) and \<^verbatim>\<open>xs * c\<close>.
\<close>

definition np_maximum :: "real list \<Rightarrow> real \<Rightarrow> real list" where
  "np_maximum xs c = map (\<lambda>x. max x c) xs"

definition np_sub_scalar :: "real list \<Rightarrow> real \<Rightarrow> real list" where
  "np_sub_scalar xs c = map (\<lambda>x. x - c) xs"

definition np_scalar_sub :: "real \<Rightarrow> real list \<Rightarrow> real list" where
  "np_scalar_sub c xs = map (\<lambda>x. c - x) xs"

definition np_add :: "real list \<Rightarrow> real list \<Rightarrow> real list" where
  "np_add xs ys = map2 (\<lambda>x y. x + y) xs ys"

definition np_mul_scalar :: "real list \<Rightarrow> real \<Rightarrow> real list" where
  "np_mul_scalar xs c = map (\<lambda>x. x * c) xs"

text \<open>
  \<^verbatim>\<open>np.max\<close> and \<^verbatim>\<open>np.min\<close> raise \<^verbatim>\<open>ValueError\<close> on an empty array and otherwise
  reduce the array from its first element.
\<close>

definition np_max :: "real list \<Rightarrow> error + real" where
  "np_max xs = (case xs of [] \<Rightarrow> Inl ValueError | x # rest \<Rightarrow> Inr (fold max rest x))"

definition np_min :: "real list \<Rightarrow> error + real" where
  "np_min xs = (case xs of [] \<Rightarrow> Inl ValueError | x # rest \<Rightarrow> Inr (fold min rest x))"

text \<open>
  \<^verbatim>\<open>round(x, ndigits)\<close>: the nearest multiple of \<open>10 ^ (- ndigits)\<close>, a tie going to
  the even neighbour.
\<close>

definition rint :: "real \<Rightarrow> int" where
  "rint x =
     (let f = \<lfloor>x\<rfloor>; d = x - of_int f
      in if d < 1 / 2 then f else if 1 / 2 < d then f + 1 else if even f then f else f + 1)"

definition py_round :: "real \<Rightarrow> nat \<Rightarrow> real" where
  "py_round x ndigits = of_int (rint (x * 10 ^ ndigits)) / 10 ^ ndigits"

section \<open>Input validation\<close>

text \<open>
  \<^verbatim>\<open>validate_inputs\<close> returns a boolean and reports a violation through
  \<^verbatim>\<open>st.error\<close>. The model returns the boolean together with the messages reported.
  The source only reads \<^verbatim>\<open>premiums\<close> and \<^verbatim>\<open>strikes\<close> (a generator over the
  premiums, \<^verbatim>\<open>len\<close> and indexing on the strikes), so the lists are plain arguments.
\<close>

definition validate_inputs :: "real list \<Rightarrow> real list \<Rightarrow> bool \<times> string list" where
  "validate_inputs premiums strikes =
     (if list_ex (\<lambda>premium. premium \<le> 0) premiums
      then (False, [''All premiums must be positive values.''])
      else if length strikes > 1 \<and>
              \<not> list_all (\<lambda>i. strikes ! i \<le> strikes ! (i + 1)) [0..<length strikes - 1]
      then (False, [''Strike prices must be in ascending order.''])
      else (True, []))"

section \<open>Payoff functions\<close>

definition calculate_bull_call_spread_payoff ::
  "real list \<Rightarrow> real \<Rightarrow> real \<Rightarrow> real \<Rightarrow> real \<Rightarrow> int \<Rightarrow> real list" where
  "calculate_bull_call_spread_payoff spot_prices buy_call_strike buy_call_premium
       sell_call_strike sell_call_premium lot_size =
     (let buy_call_payoff =
            np_sub_scalar (np_maximum (np_sub_scalar spot_prices buy_call_strike) 0)
              buy_call_premium;
          sell_call_payoff =
            np_scalar_sub sell_call_premium
              (np_maximum (np_sub_scalar spot_prices sell_call_strike) 0);
          net_payoff = np_mul_scalar (np_add buy_call_payoff sell_call_payoff) (of_int lot_size)
      in net_payoff)"

definition calculate_iron_condor_payoff ::
  "real list \<Rightarrow> real \<Rightarrow> real \<Rightarrow> real \<Rightarrow> real \<Rightarrow> real \<Rightarrow> real \<Rightarrow> real \<Rightarrow> real \<Rightarrow> int
     \<Rightarrow> real list" where
  "calculate_iron_condor_payoff spot_prices buy_put_strike buy_put_premium sell_put_strike
       sell_put_premium sell_call_strike sell_call_premium buy_call_strike buy_call_premium
       lot_size =
     (let buy_put_payoff =
            np_sub_scalar (np_maximum (np_scalar_sub buy_put_strike spot_prices) 0)
              buy_put_premium;
          sell_put_payoff =
            np_scalar_sub sell_put_premium
              (np_maximum (np_scalar_sub sell_put_strike spot_prices) 0);
          put_spread_payoff = np_add buy_put_payoff sell_put_payoff;
          buy_call_payoff =
            np_sub_scalar (np_maximum (np_sub_scalar spot_prices buy_call_strike) 0)
              buy_call_premium;
          sell_call_payoff =
            np_scalar_sub sell_call_premium
              (np_maximum (np_sub_scalar spot_prices sell_call_strike) 0);
          call_spread_payoff = np_add buy_call_payoff sell_call_payoff;
          net_payoff =
            np_mul_scalar (np_add put_spread_payoff call_spread_payoff) (of_int lot_size)
      in net_payoff)"

section \<open>Breakeven points\<close>

text \<open>The test of line 84: the payoff touches or crosses zero between two grid points.\<close>

definition sign_change :: "real \<Rightarrow> real \<Rightarrow> bool" where
  "sign_change p0 p1 \<longleftrightarrow> (p0 \<le> 0 \<and> p1 \<ge> 0) \<or> (p0 \<ge> 0 \<and> p1 \<le> 0)"

text \<open>
  Lines 84 to 88 for one index \<open>i\<close>: \<open>Inr None\<close> when the segment records nothing,
  \<open>Inr (Some price)\<close> with the interpolated price before rounding otherwise.
\<close>

definition interpolate_segment ::
  "real \<Rightarrow> real list \<Rightarrow> real list \<Rightarrow> nat \<Rightarrow> error + real option" where
  "interpolate_segment tolerance payoff spot_prices i =
     bind_result (np_get payoff i) (\<lambda>p0.
     bind_result (np_get payoff (i + 1)) (\<lambda>p1.
       if sign_change p0 p1 then
         if \<bar>p1 - p0\<bar> > tolerance then
           bind_result (np_div \<bar>p0\<bar> \<bar>p1 - p0\<bar>) (\<lambda>ratio.
           bind_result (np_get spot_prices i) (\<lambda>s0.
           bind_result (np_get spot_prices (i + 1)) (\<lambda>s1.
             let breakeven_price = s0 + ratio * (s1 - s0)
             in Inr (Some breakeven_price))))
         else Inr None
       else Inr None))"

text \<open>Line 89: the rounded price is appended to the list built so far.\<close>

definition breakeven_body ::
  "real \<Rightarrow> real list \<Rightarrow> real list \<Rightarrow> nat \<Rightarrow> real list \<Rightarrow> error + real list" where
  "breakeven_body tolerance payoff spot_prices i breakeven_points =
     bind_result (interpolate_segment tolerance payoff spot_prices i) (\<lambda>r.
       case r of
         None \<Rightarrow> Inr breakeven_points
       | Some breakeven_price \<Rightarrow> Inr (breakeven_points @ [py_round breakeven_price 2]))"

text \<open>The \<^verbatim>\<open>for\<close> loop over a list of indices, stopping at the first error.\<close>

fun breakeven_loop ::
  "real \<Rightarrow> real list \<Rightarrow> real list \<Rightarrow> nat list \<Rightarrow> real list \<Rightarrow> error + real list" where
  "breakeven_loop tolerance payoff spot_prices [] breakeven_points = Inr breakeven_points"
| "breakeven_loop tolerance payoff spot_prices (i # rest) breakeven_points =
     bind_result (breakeven_body tolerance payoff spot_prices i breakeven_points)
       (breakeven_loop tolerance payoff spot_prices rest)"

text \<open>
  \<^verbatim>\<open>range(len(payoff) - 1)\<close> is empty for an empty payoff, as \<open>[0..<0 - 1]\<close> is.
  \<^verbatim>\<open>list(set(...))\<close> removes duplicates and leaves the order open, so the result is
  the set of the recorded values.
\<close>

definition find_breakeven_points :: "real list \<Rightarrow> real list \<Rightarrow> real \<Rightarrow> error + real set" where
  "find_breakeven_points payoff spot_prices tolerance =
     bind_result (breakeven_loop tolerance payoff spot_prices [0..<length payoff - 1] [])
       (\<lambda>breakeven_points. Inr (set breakeven_points))"

definition default_tolerance :: real where
  "default_tolerance = 0.01"

text \<open>
  A payoff vector that changes sign exactly once, strictly between the grid points \<open>i\<close>
  and \<open>i + 1\<close>: every value up to index \<open>i\<close> lies strictly on one side of zero and
  every later value strictly on the other.
\<close>

definition crosses_once_at :: "real list \<Rightarrow> nat \<Rightarrow> bool" where
  "crosses_once_at payoff i \<longleftrightarrow>
     i + 1 < length payoff \<and>
     ((list_all (\<lambda>p. p < 0) (take (i + 1) payoff) \<and>
       list_all (\<lambda>p. 0 < p) (drop (i + 1) payoff)) \<or>
      (list_all (\<lambda>p. 0 < p) (take (i + 1) payoff) \<and>
       list_all (\<lambda>p. p < 0) (drop (i + 1) payoff)))"

section \<open>Summary\<close>

text \<open>
  \<^verbatim>\<open>display_summary\<close> computes the two extremes and hands them, with the breakeven
  points, to the page. The model keeps the three values it displays.
\<close>

record summary =
  max_profit :: real
  max_loss :: real
  breakevens :: "real set"

definition display_summary :: "real list \<Rightarrow> real set \<Rightarrow> error + summary" where
  "display_summary payoff breakeven_points =
     bind_result (np_max payoff) (\<lambda>max_profit.
     bind_result (np_min payoff) (\<lambda>max_loss.
       Inr \<lparr>max_profit = max_profit, max_loss = max_loss, breakevens = breakeven_points\<rparr>))"

section \<open>float64 arithmetic\<close>

text \<open>
  Some bounds hold in exact arithmetic and are missed by a rounding error in the program.
  For them the arithmetic is modelled as float64 performs it: every operation takes the
  exact result of its two operands and rounds it to the nearest float64, a tie going to
  the even significand (IEEE 754 binary64: a significand of 53 bits, exponents from
  \<open>- 1022\<close>, subnormal numbers below). Comparisons, \<^verbatim>\<open>abs\<close> and \<^verbatim>\<open>np.maximum\<close> are
  exact.

  \<open>ilog2 n x\<close> is the binary exponent of \<open>x > 0\<close>, found by halving or doubling \<open>x\<close>
  at most \<open>n\<close> times. \<open>rnd64\<close> is the rounding. A result beyond the largest finite
  float64 (about \<open>1.8e308\<close>) is \<^verbatim>\<open>inf\<close> in float64; \<open>rnd64\<close> does not model that, and the
  theorems about the float64 functions bound their inputs far below it.
\<close>

fun ilog2 :: "nat \<Rightarrow> real \<Rightarrow> int" where
  "ilog2 0 x = 0"
| "ilog2 (Suc n) x =
     (if x < 1 then ilog2 n (2 * x) - 1 else if 2 \<le> x then ilog2 n (x / 2) + 1 else 0)"

definition rnd64 :: "real \<Rightarrow> real" where
  "rnd64 x =
     (if x = 0 then 0
      else let e = max (ilog2 1100 \<bar>x\<bar>) (- 1022); ulp = 2 powi (e - 52)
           in of_int (rint (x / ulp)) * ulp)"

text \<open>
  The array operations of the payoff functions in float64, and the two payoff functions
  with them. The lot size is a Python \<^verbatim>\<open>int\<close>, which numpy converts to float64 before
  it multiplies.
\<close>

definition f64_sub_scalar :: "real list \<Rightarrow> real \<Rightarrow> real list" where
  "f64_sub_scalar xs c = map (\<lambda>x. rnd64 (x - c)) xs"

definition f64_scalar_sub :: "real \<Rightarrow> real list \<Rightarrow> real list" where
  "f64_scalar_sub c xs = map (\<lambda>x. rnd64 (c - x)) xs"

definition f64_add :: "real list \<Rightarrow> real list \<Rightarrow> real list" where
  "f64_add xs ys = map2 (\<lambda>x y. rnd64 (x + y)) xs ys"

definition f64_mul_scalar :: "real list \<Rightarrow> real \<Rightarrow> real list" where
  "f64_mul_scalar xs c = map (\<lambda>x. rnd64 (x * c)) xs"

definition calculate_bull_call_spread_payoff_f64 ::
  "real list \<Rightarrow> real \<Rightarrow> real \<Rightarrow> real \<Rightarrow> real \<Rightarrow> int \<Rightarrow> real list" where
  "calculate_bull_call_spread_payoff_f64 spot_prices buy_call_strike buy_call_premium
       sell_call_strike sell_call_premium lot_size =
     (let buy_call_payoff =
            f64_sub_scalar (np_maximum (f64_sub_scalar spot_prices buy_call_strike) 0)
              buy_call_premium;
          sell_call_payoff =
            f64_scalar_sub sell_call_premium
              (np_maximum (f64_sub_scalar spot_prices sell_call_strike) 0);
          net_payoff =
            f64_mul_scalar (f64_add buy_call_payoff sell_call_payoff)
              (rnd64 (of_int lot_size))
      in net_payoff)"

definition calculate_iron_condor_payoff_f64 ::
  "real list \<Rightarrow> real \<Rightarrow> real \<Rightarrow> real \<Rightarrow> real \<Rightarrow> real \<Rightarrow> real \<Rightarrow> real \<Rightarrow> real \<Rightarrow> int
     \<Rightarrow> real list" where
  "calculate_iron_condor_payoff_f64 spot_prices buy_put_strike buy_put_premium sell_put_strike
       sell_put_premium sell_call_strike sell_call_premium buy_call_strike buy_call_premium
       lot_size =
     (let buy_put_payoff =
            f64_sub_scalar (np_maximum (f64_scalar_sub buy_put_strike spot_prices) 0)
              buy_put_premium;
          sell_put_payoff =
            f64_scalar_sub sell_put_premium
              (np_maximum (f64_scalar_sub sell_put_strike spot_prices) 0);
          put_spread_payoff = f64_add buy_put_payoff sell_put_payoff;
          buy_call_payoff =
            f64_sub_scalar (np_maximum (f64_sub_scalar spot_prices buy_call_strike) 0)
              buy_call_premium;
          sell_call_payoff =
            f64_scalar_sub sell_call_premium
              (np_maximum (f64_sub_scalar spot_prices sell_call_strike) 0);
          call_spread_payoff = f64_add buy_call_payoff sell_call_payoff;
          net_payoff =
            f64_mul_scalar (f64_add put_spread_payoff call_spread_payoff)
              (rnd64 (of_int lot_size))
      in net_payoff)"

text \<open>
  \<^verbatim>\<open>round(x, 2)\<close> on a \<^verbatim>\<open>np.float64\<close> is numpy's rounding: multiply by \<open>10 ^ 2\<close>, round
  to the nearest integer (ties to even), divide by \<open>10 ^ 2\<close>, each in float64. The
  breakeven functions follow, as above but with float64 arithmetic.
\<close>

definition f64_div :: "real \<Rightarrow> real \<Rightarrow> error + real" where
  "f64_div a b = (if b = 0 then Inl ZeroDivisionError else Inr (rnd64 (a / b)))"

definition f64_round :: "real \<Rightarrow> nat \<Rightarrow> real" where
  "f64_round x ndigits = rnd64 (of_int (rint (rnd64 (x * 10 ^ ndigits))) / 10 ^ ndigits)"

definition interpolate_segment_f64 ::
  "real \<Rightarrow> real list \<Rightarrow> real list \<Rightarrow> nat \<Rightarrow> error + real option" where
  "interpolate_segment_f64 tolerance payoff spot_prices i =
     bind_result (np_get payoff i) (\<lambda>p0.
     bind_result (np_get payoff (i + 1)) (\<lambda>p1.
       if sign_change p0 p1 then
         if \<bar>rnd64 (p1 - p0)\<bar> > tolerance then
           bind_result (f64_div \<bar>p0\<bar> \<bar>rnd64 (p1 - p0)\<bar>) (\<lambda>ratio.
           bind_result (np_get spot_prices i) (\<lambda>s0.
           bind_result (np_get spot_prices (i + 1)) (\<lambda>s1.
             let breakeven_price = rnd64 (s0 + rnd64 (ratio * rnd64 (s1 - s0)))
             in Inr (Some breakeven_price))))
         else Inr None
       else Inr None))"

definition breakeven_body_f64 ::
  "real \<Rightarrow> real list \<Rightarrow> real list \<Rightarrow> nat \<Rightarrow> real list \<Rightarrow> error + real list" where
  "breakeven_body_f64 tolerance payoff spot_prices i breakeven_points =
     bind_result (interpolate_segment_f64 tolerance payoff spot_prices i) (\<lambda>r.
       case r of
         None \<Rightarrow> Inr breakeven_points
       | Some breakeven_price \<Rightarrow> Inr (breakeven_points @ [f64_round breakeven_price 2]))"

fun breakeven_loop_f64 ::
  "real \<Rightarrow> real list \<Rightarrow> real list \<Rightarrow> nat list \<Rightarrow> real list \<Rightarrow> error + real list" where
  "breakeven_loop_f64 tolerance payoff spot_prices [] breakeven_points = Inr breakeven_points"
| "breakeven_loop_f64 tolerance payoff spot_prices (i # rest) breakeven_points =
     bind_result (breakeven_body_f64 tolerance payoff spot_prices i breakeven_points)
       (breakeven_loop_f64 tolerance payoff spot_prices rest)"

definition find_breakeven_points_f64 ::
  "real list \<Rightarrow> real list \<Rightarrow> real \<Rightarrow> error + real set" where
  "find_breakeven_points_f64 payoff spot_prices tolerance =
     bind_result (breakeven_loop_f64 tolerance payoff spot_prices [0..<length payoff - 1] [])
       (\<lambda>breakeven_points. Inr (set breakeven_points))"

section \<open>The payoff functions, point by point\<close>

lemma bull_call_spread_pointwise:
  "calculate_bull_call_spread_payoff spot_prices buy_call_strike buy_call_premium
       sell_call_strike sell_call_premium lot_size =
   map (\<lambda>S. ((max (S - buy_call_strike) 0 - buy_call_premium) +
              (sell_call_premium - max (S - sell_call_strike) 0)) * of_int lot_size)
     spot_prices"
  unfolding calculate_bull_call_spread_payoff_def Let_def np_sub_scalar_def np_maximum_def
    np_scalar_sub_def np_add_def np_mul_scalar_def
  by (induction spot_prices) simp_all

lemma iron_condor_pointwise:
  "calculate_iron_condor_payoff spot_prices buy_put_strike buy_put_premium sell_put_strike
       sell_put_premium sell_call_strike sell_call_premium buy_call_strike buy_call_premium
       lot_size =
   map (\<lambda>S. (((max (buy_put_strike - S) 0 - buy_put_premium) +
               (sell_put_premium - max (sell_put_strike - S) 0)) +
              ((max (S - buy_call_strike) 0 - buy_call_premium) +
               (sell_call_premium - max (S - sell_call_strike) 0))) * of_int lot_size)
     spot_prices"
  unfolding calculate_iron_condor_payoff_def Let_def np_sub_scalar_def np_maximum_def
    np_scalar_sub_def np_add_def np_mul_scalar_def
  by (induction spot_prices) simp_all

text \<open>
  Claim C1. For every grid of spot prices and all inputs, the Bull Call Spread payoff is
  computed elementwise: the output has one point per spot price \<open>S\<close>, in the grid's
  order, and that point is
  \<open>(max (S - buyCallStrike) 0 - buyCallPremium + sellCallPremium - max (S - sellCallStrike) 0) * lotSize\<close>,
  a function of \<open>S\<close> and the parameters alone.
\<close>

theorem C1_bull_call_spread_elementwise:
  "calculate_bull_call_spread_payoff spot_prices buy_call_strike buy_call_premium
       sell_call_strike sell_call_premium lot_size =
   map (\<lambda>S. (max (S - buy_call_strike) 0 - buy_call_premium + sell_call_premium
              - max (S - sell_call_strike) 0) * of_int lot_size)
     spot_prices"
  by (simp add: bull_call_spread_pointwise algebra_simps)

theorem C1_bull_call_spread_elementwise_witness:
  "calculate_bull_call_spread_payoff [0, 105, 5000] 100 5 110 2 1 = [-3, 2, 7]"
  using C1_bull_call_spread_elementwise [of "[0, 105, 5000]" 100 5 110 2 1]
  by simp

text \<open>
  Claim C3. \<^verbatim>\<open>validate_inputs\<close> returns false if some premium is at most zero; it
  returns false if there is more than one strike and some adjacent pair is decreasing;
  it returns true in every other case. The inputs are only read: the embedded function
  has the two lists as arguments and nothing of them in its result.
\<close>

theorem C3_validate_inputs:
  "((\<exists>premium\<in>set premiums. premium \<le> 0) \<longrightarrow> \<not> fst (validate_inputs premiums strikes)) \<and>
   (length strikes > 1 \<and> (\<exists>i. i + 1 < length strikes \<and> strikes ! i > strikes ! (i + 1))
      \<longrightarrow> \<not> fst (validate_inputs premiums strikes)) \<and>
   (\<not> (\<exists>premium\<in>set premiums. premium \<le> 0) \<and>
    \<not> (length strikes > 1 \<and> (\<exists>i. i + 1 < length strikes \<and> strikes ! i > strikes ! (i + 1)))
      \<longrightarrow> fst (validate_inputs premiums strikes))"
proof -
  have adjacent:
    "list_all (\<lambda>i. strikes ! i \<le> strikes ! (i + 1)) [0..<length strikes - 1]
     \<longleftrightarrow> (\<forall>i. i + 1 < length strikes \<longrightarrow> strikes ! i \<le> strikes ! (i + 1))"
    by (auto simp: list_all_iff)
  show ?thesis
    unfolding validate_inputs_def adjacent list_ex_iff
    by (auto simp: not_le not_less)
qed

theorem C3_validate_inputs_witness:
  "\<not> fst (validate_inputs [5, 0] [100, 110]) \<and>
   \<not> fst (validate_inputs [5, 2] [100, 90, 120]) \<and>
   fst (validate_inputs [2, 5, 5, 2] [90, 100, 110, 120])"
proof -
  have a: "\<exists>premium\<in>set [5, 0 :: real]. premium \<le> 0" by simp
  have b: "length [100, 90, 120 :: real] > 1 \<and>
      (\<exists>i. i + 1 < length [100, 90, 120 :: real] \<and>
           [100, 90, 120 :: real] ! i > [100, 90, 120] ! (i + 1))"
    by (intro conjI exI[of _ 0]) simp_all
  have c1: "\<not> (\<exists>premium\<in>set [2, 5, 5, 2 :: real]. premium \<le> 0)" by simp
  have c2: "\<not> (length [90, 100, 110, 120 :: real] > 1 \<and>
      (\<exists>i. i + 1 < length [90, 100, 110, 120 :: real] \<and>
           [90, 100, 110, 120 :: real] ! i > [90, 100, 110, 120] ! (i + 1)))"
    by (auto simp: nth_Cons' less_Suc_eq numeral_eq_Suc)
  show ?thesis
    using C3_validate_inputs [of "[5, 0]" "[100, 110]"] a
      C3_validate_inputs [of "[5, 2]" "[100, 90, 120]"] b
      C3_validate_inputs [of "[2, 5, 5, 2]" "[90, 100, 110, 120]"] c1 c2
    by blast
qed

text \<open>
  The page computes a Bull Call Spread only after \<^verbatim>\<open>validate_inputs\<close> has accepted the
  premiums and the strike sequence \<open>[buy_call_strike, sell_call_strike]\<close> (line 251), so
  the bought strike is at most the sold one there.
\<close>

lemma validated_bull_call_spread:
  assumes "fst (validate_inputs [buy_call_premium, sell_call_premium]
      [buy_call_strike, sell_call_strike])"
  shows "buy_call_strike \<le> sell_call_strike \<and> 0 < buy_call_premium \<and> 0 < sell_call_premium"
  using assms by (simp add: validate_inputs_def not_le split: if_splits)

section \<open>The breakeven loop\<close>

lemma bind_result_Inl: "bind_result (Inl e) f = Inl e"
  by (simp add: bind_result_def)

lemma bind_result_Inr: "bind_result (Inr v) f = f v"
  by (simp add: bind_result_def)

lemma np_get_in_range: "i < length xs \<Longrightarrow> np_get xs i = Inr (xs ! i)"
  by (simp add: np_get_def)

text \<open>The segment function on an index of the loop's range.\<close>

lemma interpolate_segment_in_range:
  assumes "i + 1 < length payoff"
  shows "interpolate_segment tolerance payoff spot_prices i =
     (if sign_change (payoff ! i) (payoff ! (i + 1)) \<and> \<bar>payoff ! (i + 1) - payoff ! i\<bar> > tolerance
      then bind_result (np_div \<bar>payoff ! i\<bar> \<bar>payoff ! (i + 1) - payoff ! i\<bar>) (\<lambda>ratio.
           bind_result (np_get spot_prices i) (\<lambda>s0.
           bind_result (np_get spot_prices (i + 1)) (\<lambda>s1.
             Inr (Some (s0 + ratio * (s1 - s0))))))
      else Inr None)"
  using assms by (simp add: interpolate_segment_def np_get_def bind_result_Inr)

lemma interpolate_segment_no_sign_change:
  "i + 1 < length payoff \<Longrightarrow> \<not> sign_change (payoff ! i) (payoff ! (i + 1)) \<Longrightarrow>
   interpolate_segment tolerance payoff spot_prices i = Inr None"
  by (simp add: interpolate_segment_in_range)

lemma interpolate_segment_flat:
  "i + 1 < length payoff \<Longrightarrow> \<bar>payoff ! (i + 1) - payoff ! i\<bar> \<le> tolerance \<Longrightarrow>
   interpolate_segment tolerance payoff spot_prices i = Inr None"
  by (simp add: interpolate_segment_in_range)

lemma interpolate_segment_no_zero_division:
  assumes "i + 1 < length payoff" "0 \<le> tolerance"
  shows "interpolate_segment tolerance payoff spot_prices i \<noteq> Inl ZeroDivisionError"
  using assms
  by (auto simp: interpolate_segment_in_range np_div_def np_get_def bind_result_def)

lemma interpolate_segment_total:
  assumes "i + 1 < length payoff" "length payoff \<le> length spot_prices" "0 \<le> tolerance"
  shows "\<exists>r. interpolate_segment tolerance payoff spot_prices i = Inr r"
  using assms
  by (auto simp: interpolate_segment_in_range np_div_def np_get_def bind_result_def)

lemma interpolate_segment_SomeD:
  assumes "interpolate_segment tolerance payoff spot_prices i = Inr (Some price)"
  shows "i + 1 < length payoff \<and> i + 1 < length spot_prices \<and>
     sign_change (payoff ! i) (payoff ! (i + 1)) \<and>
     \<bar>payoff ! (i + 1) - payoff ! i\<bar> > tolerance \<and> payoff ! (i + 1) \<noteq> payoff ! i \<and>
     price = spot_prices ! i +
       \<bar>payoff ! i\<bar> / \<bar>payoff ! (i + 1) - payoff ! i\<bar> * (spot_prices ! (i + 1) - spot_prices ! i)"
  using assms
  by (auto simp: interpolate_segment_def np_div_def np_get_def bind_result_def
      split: if_splits)

lemma breakeven_body_None:
  "interpolate_segment tolerance payoff spot_prices i = Inr None \<Longrightarrow>
   breakeven_body tolerance payoff spot_prices i acc = Inr acc"
  by (simp add: breakeven_body_def bind_result_Inr)

lemma breakeven_body_Some:
  "interpolate_segment tolerance payoff spot_prices i = Inr (Some price) \<Longrightarrow>
   breakeven_body tolerance payoff spot_prices i acc = Inr (acc @ [py_round price 2])"
  by (simp add: breakeven_body_def bind_result_Inr)

lemma breakeven_body_error:
  "breakeven_body tolerance payoff spot_prices i acc = Inl e \<longleftrightarrow>
   interpolate_segment tolerance payoff spot_prices i = Inl e"
  by (auto simp: breakeven_body_def bind_result_def split: sum.splits option.splits)

lemma breakeven_loop_append:
  "breakeven_loop tolerance payoff spot_prices (xs @ ys) acc =
   bind_result (breakeven_loop tolerance payoff spot_prices xs acc)
     (breakeven_loop tolerance payoff spot_prices ys)"
  by (induction xs arbitrary: acc) (auto simp: bind_result_def split: sum.splits)

lemma breakeven_loop_skip:
  "\<forall>i\<in>set idx. interpolate_segment tolerance payoff spot_prices i = Inr None \<Longrightarrow>
   breakeven_loop tolerance payoff spot_prices idx acc = Inr acc"
  by (induction idx) (simp_all add: breakeven_body_None bind_result_Inr)

lemma breakeven_loop_no_zero_division:
  assumes "\<forall>i\<in>set idx. i + 1 < length payoff" "0 \<le> tolerance"
  shows "breakeven_loop tolerance payoff spot_prices idx acc \<noteq> Inl ZeroDivisionError"
  using assms(1)
proof (induction idx arbitrary: acc)
  case Nil
  then show ?case by simp
next
  case (Cons i rest)
  have "breakeven_body tolerance payoff spot_prices i acc \<noteq> Inl ZeroDivisionError"
    using Cons.prems assms(2)
    by (simp add: breakeven_body_error interpolate_segment_no_zero_division)
  then show ?case
    using Cons by (cases "breakeven_body tolerance payoff spot_prices i acc")
      (auto simp: bind_result_def)
qed

lemma breakeven_loop_total:
  assumes "\<forall>i\<in>set idx. i + 1 < length payoff" "length payoff \<le> length spot_prices"
    "0 \<le> tolerance"
  shows "\<exists>r. breakeven_loop tolerance payoff spot_prices idx acc = Inr r"
  using assms(1)
proof (induction idx arbitrary: acc)
  case Nil
  then show ?case by simp
next
  case (Cons i rest)
  obtain r where "interpolate_segment tolerance payoff spot_prices i = Inr r"
    using interpolate_segment_total[of i payoff spot_prices tolerance] Cons.prems assms(2,3)
    by auto
  then obtain acc' where "breakeven_body tolerance payoff spot_prices i acc = Inr acc'"
    by (cases r) (simp_all add: breakeven_body_None breakeven_body_Some)
  then show ?case
    using Cons by (simp add: bind_result_Inr)
qed

lemma range_indices_in_payoff: "\<forall>i\<in>set [0..<length payoff - 1]. i + 1 < length payoff"
  by auto

lemma find_breakeven_points_no_zero_division:
  assumes "0 \<le> tolerance"
  shows "find_breakeven_points payoff spot_prices tolerance \<noteq> Inl ZeroDivisionError"
proof -
  have "breakeven_loop tolerance payoff spot_prices [0..<length payoff - 1] [] \<noteq>
      Inl ZeroDivisionError"
    using range_indices_in_payoff assms by (rule breakeven_loop_no_zero_division)
  then show ?thesis
    by (cases "breakeven_loop tolerance payoff spot_prices [0..<length payoff - 1] []")
      (simp_all add: find_breakeven_points_def bind_result_def)
qed

lemma find_breakeven_points_total:
  assumes "0 \<le> tolerance" "length spot_prices = length payoff"
  shows "\<exists>bs. find_breakeven_points payoff spot_prices tolerance = Inr bs"
proof -
  have "length payoff \<le> length spot_prices" using assms(2) by simp
  with range_indices_in_payoff
  obtain r where "breakeven_loop tolerance payoff spot_prices [0..<length payoff - 1] [] = Inr r"
    using breakeven_loop_total[OF _ _ assms(1)] by blast
  then show ?thesis
    by (simp add: find_breakeven_points_def bind_result_Inr)
qed

text \<open>
  Claim C4, as stated: for every payoff vector that is entirely non-negative, and for
  every one that is entirely non-positive, \<^verbatim>\<open>find_breakeven_points\<close> with the paired
  grid and the default tolerance returns the empty set. The test of line 84 is not
  strict, so a vector that touches zero at a grid point records a breakeven there: the
  non-negative \<open>[0, 1]\<close> yields \<open>{0}\<close> and the non-positive \<open>[-3, 0]\<close> (a Bull Call
  Spread whose strike distance equals its net debit) yields the grid point where the
  payoff reaches zero.
\<close>

theorem C4_touching_zero_counterexample:
  "list_all (\<lambda>p. 0 \<le> p) [0, 1 :: real] \<and>
   find_breakeven_points [0, 1] [0, 5] default_tolerance = Inr {0} \<and>
   list_all (\<lambda>p. p \<le> 0) [-3, 0 :: real] \<and>
   calculate_bull_call_spread_payoff [100, 105] 100 5 103 2 1 = [-3, 0] \<and>
   find_breakeven_points [-3, 0] [100, 105] default_tolerance = Inr {105}"
  by (simp add: find_breakeven_points_def default_tolerance_def breakeven_body_def
      interpolate_segment_def np_get_def np_div_def sign_change_def bind_result_def
      py_round_def rint_def bull_call_spread_pointwise)

lemma breakeven_body_grows:
  assumes "breakeven_body tolerance payoff spot_prices i acc = Inr r"
  shows "length acc \<le> length r \<and>
    (\<forall>price. interpolate_segment tolerance payoff spot_prices i = Inr (Some price) \<longrightarrow>
       length acc < length r)"
  using assms
  by (auto simp: breakeven_body_def bind_result_def split: sum.splits option.splits)

lemma breakeven_loop_grows:
  assumes "breakeven_loop tolerance payoff spot_prices idx acc = Inr r"
  shows "length acc \<le> length r \<and>
    (\<forall>i price. i \<in> set idx \<and>
        interpolate_segment tolerance payoff spot_prices i = Inr (Some price) \<longrightarrow>
       length acc < length r)"
  using assms
proof (induction idx arbitrary: acc)
  case Nil
  then show ?case by simp
next
  case (Cons j rest)
  from Cons.prems obtain acc' where
    body: "breakeven_body tolerance payoff spot_prices j acc = Inr acc'" and
    rest: "breakeven_loop tolerance payoff spot_prices rest acc' = Inr r"
    by (cases "breakeven_body tolerance payoff spot_prices j acc")
      (simp_all add: bind_result_def)
  from breakeven_body_grows[OF body] Cons.IH[OF rest]
  show ?case by (auto simp: le_less_trans less_le_trans le_trans)
qed

lemma one_signed_sign_change:
  assumes "(0 \<le> p0 \<and> 0 \<le> p1) \<or> (p0 \<le> 0 \<and> p1 \<le> 0)"
  shows "sign_change p0 p1 \<longleftrightarrow> p0 = 0 \<or> p1 = 0"
  using assms by (auto simp: sign_change_def)

text \<open>
  Claim C4, amended: for every payoff vector that is entirely non-negative, and for every
  one that is entirely non-positive, \<^verbatim>\<open>find_breakeven_points\<close> with the paired grid and
  a tolerance that is not negative (the default 0.01 is one) returns a set, and the set is
  empty exactly when no segment has a payoff of zero at one of its two ends and
  \<open>\<bar>payoff[i+1] - payoff[i]\<bar> > tolerance\<close>. So the set is empty for a vector that is
  strictly positive or strictly negative, and for one that touches zero only on segments
  within the tolerance (the all-zero vector, \<open>[0.004, 0, 0.004]\<close>); it is not empty as
  soon as a zero sits at an end of a steeper segment.
\<close>

theorem C4_empty_iff_no_steep_zero:
  assumes sgn: "(\<forall>p\<in>set payoff. 0 \<le> p) \<or> (\<forall>p\<in>set payoff. p \<le> 0)"
    and len: "length spot_prices = length payoff"
    and tol: "0 \<le> tolerance"
  shows "\<exists>bs. find_breakeven_points payoff spot_prices tolerance = Inr bs \<and>
     (bs = {} \<longleftrightarrow>
      \<not> (\<exists>i. i + 1 < length payoff \<and> (payoff ! i = 0 \<or> payoff ! (i + 1) = 0) \<and>
             \<bar>payoff ! (i + 1) - payoff ! i\<bar> > tolerance))"
proof -
  let ?idx = "[0..<length payoff - 1]"
  let ?steep = "\<lambda>i. i + 1 < length payoff \<and> (payoff ! i = 0 \<or> payoff ! (i + 1) = 0) \<and>
             \<bar>payoff ! (i + 1) - payoff ! i\<bar> > tolerance"
  have sc: "sign_change (payoff ! i) (payoff ! (i + 1)) \<longleftrightarrow>
      payoff ! i = 0 \<or> payoff ! (i + 1) = 0" if "i + 1 < length payoff" for i
  proof -
    have "payoff ! i \<in> set payoff" "payoff ! (i + 1) \<in> set payoff" using that by auto
    then have "(0 \<le> payoff ! i \<and> 0 \<le> payoff ! (i + 1)) \<or>
        (payoff ! i \<le> 0 \<and> payoff ! (i + 1) \<le> 0)"
      using sgn by blast
    then show ?thesis by (rule one_signed_sign_change)
  qed
  have len': "length payoff \<le> length spot_prices" using len by simp
  obtain r where loop: "breakeven_loop tolerance payoff spot_prices ?idx [] = Inr r"
    using breakeven_loop_total[OF range_indices_in_payoff len' tol] by blast
  then have find: "find_breakeven_points payoff spot_prices tolerance = Inr (set r)"
    by (simp add: find_breakeven_points_def bind_result_Inr)
  have "r = [] \<longleftrightarrow> \<not> (\<exists>i. ?steep i)"
  proof
    assume r: "r = []"
    show "\<not> (\<exists>i. ?steep i)"
    proof
      assume "\<exists>i. ?steep i"
      then obtain i where i: "?steep i" ..
      then have in_idx: "i \<in> set ?idx" by auto
      have ne: "\<bar>payoff ! (i + 1) - payoff ! i\<bar> \<noteq> 0" using i tol by linarith
      have "\<exists>price. interpolate_segment tolerance payoff spot_prices i = Inr (Some price)"
        using i len sc[of i] ne
        by (simp add: interpolate_segment_in_range np_div_def np_get_def bind_result_Inr)
      then show False
        using breakeven_loop_grows[OF loop] in_idx r by auto
    qed
  next
    assume none: "\<not> (\<exists>i. ?steep i)"
    have "\<forall>i\<in>set ?idx. interpolate_segment tolerance payoff spot_prices i = Inr None"
    proof
      fix i assume "i \<in> set ?idx"
      then have i: "i + 1 < length payoff" by auto
      show "interpolate_segment tolerance payoff spot_prices i = Inr None"
        using none i sc[OF i] by (auto simp: interpolate_segment_in_range)
    qed
    from breakeven_loop_skip[OF this, of "[]"] loop show "r = []" by simp
  qed
  then show ?thesis using find by simp
qed

theorem C4_empty_iff_no_steep_zero_witness:
  "find_breakeven_points [0.004, 0, 0.004] [100, 105, 110] default_tolerance = Inr {} \<and>
   find_breakeven_points [0, 0, 0] [100, 105, 110] default_tolerance = Inr {} \<and>
   find_breakeven_points [6, 6, 1] [100, 105, 110] default_tolerance = Inr {} \<and>
   find_breakeven_points [0, 1] [0, 5] default_tolerance \<noteq> Inr {}"
proof -
  have t: "0 \<le> default_tolerance" by (simp add: default_tolerance_def)
  have a: "(\<forall>p\<in>set [0.004, 0, 0.004 :: real]. 0 \<le> p) \<or> (\<forall>p\<in>set [0.004, 0, 0.004 :: real]. p \<le> 0)"
    by simp
  have b: "(\<forall>p\<in>set [0, 0, 0 :: real]. 0 \<le> p) \<or> (\<forall>p\<in>set [0, 0, 0 :: real]. p \<le> 0)"
    by simp
  have c: "(\<forall>p\<in>set [6, 6, 1 :: real]. 0 \<le> p) \<or> (\<forall>p\<in>set [6, 6, 1 :: real]. p \<le> 0)"
    by simp
  have d: "(\<forall>p\<in>set [0, 1 :: real]. 0 \<le> p) \<or> (\<forall>p\<in>set [0, 1 :: real]. p \<le> 0)"
    by simp
  have l3: "length [100, 105, 110 :: real] = length [0.004, 0, 0.004 :: real]"
    "length [100, 105, 110 :: real] = length [0, 0, 0 :: real]"
    "length [100, 105, 110 :: real] = length [6, 6, 1 :: real]" by simp_all
  have l2: "length [0, 5 :: real] = length [0, 1 :: real]" by simp
  show ?thesis
    using C4_empty_iff_no_steep_zero [OF a l3(1) t]
      C4_empty_iff_no_steep_zero [OF b l3(2) t]
      C4_empty_iff_no_steep_zero [OF c l3(3) t]
      C4_empty_iff_no_steep_zero [OF d l2 t]
    by (simp add: find_breakeven_points_def default_tolerance_def breakeven_body_def
      interpolate_segment_def np_get_def np_div_def sign_change_def bind_result_def
      py_round_def rint_def)
qed

text \<open>
  Claim C6. With the default tolerance 0.01 the interpolation divides only on segments
  with \<open>\<bar>payoff[i+1] - payoff[i]\<bar> > tolerance\<close>, so no division by zero occurs: the
  function never stops with \<open>ZeroDivisionError\<close>, it returns a set on every paired grid,
  and a segment yields a price only when it is steeper than the tolerance. On a segment
  where the sign test holds but \<open>\<bar>payoff[i+1] - payoff[i]\<bar> \<le> tolerance\<close>, nothing is
  recorded: the list of breakevens is left as it was.
\<close>

theorem C6_tolerance_guard:
  "find_breakeven_points payoff spot_prices default_tolerance \<noteq> Inl ZeroDivisionError \<and>
   (length spot_prices = length payoff \<longrightarrow>
      (\<exists>bs. find_breakeven_points payoff spot_prices default_tolerance = Inr bs)) \<and>
   (\<forall>i price.
      interpolate_segment default_tolerance payoff spot_prices i = Inr (Some price) \<longrightarrow>
      \<bar>payoff ! (i + 1) - payoff ! i\<bar> > default_tolerance) \<and>
   (\<forall>i acc.
      i + 1 < length payoff \<and> sign_change (payoff ! i) (payoff ! (i + 1)) \<and>
      \<bar>payoff ! (i + 1) - payoff ! i\<bar> \<le> default_tolerance \<longrightarrow>
      interpolate_segment default_tolerance payoff spot_prices i = Inr None \<and>
      breakeven_body default_tolerance payoff spot_prices i acc = Inr acc)"
proof (intro conjI allI impI)
  have tol: "0 \<le> default_tolerance" by (simp add: default_tolerance_def)
  show "find_breakeven_points payoff spot_prices default_tolerance \<noteq> Inl ZeroDivisionError"
    using tol by (rule find_breakeven_points_no_zero_division)
  show "\<exists>bs. find_breakeven_points payoff spot_prices default_tolerance = Inr bs"
    if "length spot_prices = length payoff"
    using tol that by (rule find_breakeven_points_total)
  show "\<bar>payoff ! (i + 1) - payoff ! i\<bar> > default_tolerance"
    if "interpolate_segment default_tolerance payoff spot_prices i = Inr (Some price)"
    for i price
    using interpolate_segment_SomeD[OF that] by simp
  fix i acc
  assume a: "i + 1 < length payoff \<and> sign_change (payoff ! i) (payoff ! (i + 1)) \<and>
      \<bar>payoff ! (i + 1) - payoff ! i\<bar> \<le> default_tolerance"
  then show none: "interpolate_segment default_tolerance payoff spot_prices i = Inr None"
    by (simp add: interpolate_segment_flat)
  then show "breakeven_body default_tolerance payoff spot_prices i acc = Inr acc"
    by (rule breakeven_body_None)
qed

theorem C6_tolerance_guard_witness:
  "sign_change (- 0.004) 0.004 \<and>
   interpolate_segment default_tolerance [- 0.004, 0.004, 1] [0, 5, 10] 0 = Inr None \<and>
   find_breakeven_points [- 0.004, 0.004, 1] [0, 5, 10] default_tolerance = Inr {}"
  using C6_tolerance_guard [of "[- 0.004, 0.004, 1]" "[0, 5, 10]"]
  by (simp add: find_breakeven_points_def default_tolerance_def breakeven_body_def
      interpolate_segment_def np_get_def np_div_def sign_change_def bind_result_def)

lemma rint_close: "\<bar>of_int (rint x) - x\<bar> \<le> 1 / 2"
proof -
  have "of_int \<lfloor>x\<rfloor> \<le> x" "x < of_int \<lfloor>x\<rfloor> + 1" by linarith+
  then show ?thesis
    by (auto simp: rint_def Let_def abs_le_iff)
qed

lemma list_all_take_nth:
  assumes "n \<le> length xs"
  shows "list_all P (take n xs) \<longleftrightarrow> (\<forall>j<length xs. j < n \<longrightarrow> P (xs ! j))"
  using assms by (auto simp: list_all_length)

lemma list_all_drop_nth:
  assumes "n \<le> length xs"
  shows "list_all P (drop n xs) \<longleftrightarrow> (\<forall>j<length xs. \<not> j < n \<longrightarrow> P (xs ! j))"
proof
  assume a: "list_all P (drop n xs)"
  show "\<forall>j<length xs. \<not> j < n \<longrightarrow> P (xs ! j)"
  proof (intro allI impI)
    fix j assume j: "j < length xs" "\<not> j < n"
    then have "j - n < length (drop n xs)" by simp
    with a have "P (drop n xs ! (j - n))" by (simp add: list_all_length)
    then show "P (xs ! j)" using j assms by simp
  qed
next
  assume "\<forall>j<length xs. \<not> j < n \<longrightarrow> P (xs ! j)"
  then show "list_all P (drop n xs)"
    using assms by (auto simp: list_all_length)
qed

lemma crosses_once_at_signs:
  assumes "crosses_once_at payoff i"
  shows "(\<forall>j<length payoff. if j \<le> i then payoff ! j < 0 else 0 < payoff ! j) \<or>
      (\<forall>j<length payoff. if j \<le> i then 0 < payoff ! j else payoff ! j < 0)"
proof -
  have n: "i + 1 \<le> length payoff" using assms by (simp add: crosses_once_at_def)
  have le: "j < i + 1 \<longleftrightarrow> j \<le> i" for j by auto
  show ?thesis
    using assms
    unfolding crosses_once_at_def list_all_take_nth[OF n] list_all_drop_nth[OF n] le
    by auto
qed

section \<open>Summary of a payoff vector\<close>

lemma fold_max_Max: "fold max rest (x::real) = Max (set (x # rest))"
  by (rule Max.set_eq_fold[symmetric])

lemma fold_min_Min: "fold min rest (x::real) = Min (set (x # rest))"
  by (rule Min.set_eq_fold[symmetric])

text \<open>
  Claim C8. For every non-empty payoff vector the summary does not fail, its
  \<open>maxProfit\<close> is the maximum element of the vector and its \<open>maxLoss\<close> the minimum
  element.
\<close>

theorem C8_summary_extremes:
  assumes "payoff \<noteq> []"
  shows "display_summary payoff breakeven_points =
    Inr \<lparr>max_profit = Max (set payoff), max_loss = Min (set payoff),
         breakevens = breakeven_points\<rparr>"
  using assms
  by (cases payoff)
    (simp_all add: display_summary_def np_max_def np_min_def bind_result_Inr
      fold_max_Max fold_min_Min del: set_simps)

theorem C8_summary_extremes_witness:
  "display_summary [- 3, 2, 7, 7] {103} =
   Inr \<lparr>max_profit = 7, max_loss = - 3, breakevens = {103}\<rparr>"
  using C8_summary_extremes [of "[- 3, 2, 7, 7]" "{103}"] by simp

section \<open>Lot size\<close>

text \<open>
  Claim C9. Both payoff functions are homogeneous in the lot size: for every grid, every
  strike and premium, and every integer \<open>k\<close> (so every positive one), the payoff with lot
  size \<open>k\<close> is \<open>k\<close> times, point by point, the payoff with lot size 1.
\<close>

theorem C9_lot_size_homogeneous:
  "calculate_bull_call_spread_payoff spot_prices buy_call_strike buy_call_premium
       sell_call_strike sell_call_premium k
     = map (\<lambda>x. of_int k * x)
         (calculate_bull_call_spread_payoff spot_prices buy_call_strike buy_call_premium
            sell_call_strike sell_call_premium 1)
   \<and> calculate_iron_condor_payoff spot_prices buy_put_strike buy_put_premium sell_put_strike
       sell_put_premium ic_sell_call_strike ic_sell_call_premium ic_buy_call_strike
       ic_buy_call_premium k
     = map (\<lambda>x. of_int k * x)
         (calculate_iron_condor_payoff spot_prices buy_put_strike buy_put_premium
            sell_put_strike sell_put_premium ic_sell_call_strike ic_sell_call_premium
            ic_buy_call_strike ic_buy_call_premium 1)"
  by (simp add: bull_call_spread_pointwise iron_condor_pointwise mult.commute)

theorem C9_lot_size_homogeneous_witness:
  "calculate_bull_call_spread_payoff [0, 105, 5000] 100 5 110 2 3 = [- 9, 6, 21] \<and>
   calculate_bull_call_spread_payoff [0, 105, 5000] 100 5 110 2 1 = [- 3, 2, 7] \<and>
   calculate_iron_condor_payoff [0, 105, 5000] 90 2 100 5 110 5 120 2 3 = [- 12, 18, - 12] \<and>
   calculate_iron_condor_payoff [0, 105, 5000] 90 2 100 5 110 5 120 2 1 = [- 4, 6, - 4]"
  using C9_lot_size_homogeneous [of "[0, 105, 5000]" 100 5 110 2 3 90 2 100 5 110 5 120 2]
  by (simp add: bull_call_spread_pointwise iron_condor_pointwise)

section \<open>Where an interpolated price lies\<close>




section \<open>The rounding error of float64\<close>

lemma rint_sign: "(0 \<le> x \<longrightarrow> 0 \<le> rint x) \<and> (x \<le> 0 \<longrightarrow> rint x \<le> 0)"
proof -
  have "of_int \<lfloor>x\<rfloor> \<le> x" "x < of_int \<lfloor>x\<rfloor> + 1" by linarith+
  moreover have "0 \<le> x \<Longrightarrow> 0 \<le> \<lfloor>x\<rfloor>" by simp
  moreover have "x \<le> 0 \<Longrightarrow> \<lfloor>x\<rfloor> \<le> 0" by (simp add: floor_le_zero)
  moreover have "x \<le> 0 \<Longrightarrow> \<lfloor>x\<rfloor> = 0 \<Longrightarrow> x = 0"
    using calculation(2) by linarith
  ultimately show ?thesis
    by (auto simp: rint_def Let_def)
qed

lemma two_powi_pos: "0 < (2::real) powi k"
  by (simp add: zero_less_power_int)

lemma two_powi_Suc: "(2::real) powi (k + 1) = 2 * 2 powi k"
  by (simp add: power_int_add)

lemma two_powi_pred: "(2::real) powi (k - 1) = 2 powi k / 2"
  by (simp add: power_int_diff)

lemma two_powi_ge_1D: "1 \<le> (2::real) powi k \<Longrightarrow> 0 \<le> k"
proof (rule ccontr)
  assume a: "1 \<le> (2::real) powi k" and "\<not> 0 \<le> k"
  then have "k < 0" by simp
  then have "(2::real) powi k < 2 powi 0" by (intro power_int_strict_increasing) simp_all
  with a show False by simp
qed

lemma two_powi_ge_2D: "2 \<le> (2::real) powi k \<Longrightarrow> 1 \<le> k"
proof (rule ccontr)
  assume a: "2 \<le> (2::real) powi k" and "\<not> 1 \<le> k"
  then have "k < 1" by simp
  then have "(2::real) powi k < 2 powi 1" by (intro power_int_strict_increasing) simp_all
  with a show False by simp
qed

lemma ilog2_le:
  "0 < x \<Longrightarrow> x \<le> 2 powi k \<Longrightarrow> - int n \<le> k \<Longrightarrow> ilog2 n x \<le> k"
proof (induction n arbitrary: x k)
  case 0
  then show ?case by simp
next
  case (Suc n)
  show ?case
  proof (cases "x < 1")
    case True
    have "ilog2 n (2 * x) \<le> k + 1"
      using Suc.prems by (intro Suc.IH) (simp_all add: two_powi_Suc)
    then show ?thesis using True by simp
  next
    case False
    show ?thesis
    proof (cases "2 \<le> x")
      case True
      then have k: "1 \<le> k" using Suc.prems(2) by (intro two_powi_ge_2D) linarith
      have "ilog2 n (x / 2) \<le> k - 1"
        using Suc.prems k by (intro Suc.IH) (simp_all add: two_powi_pred)
      then show ?thesis using True False by simp
    next
      case F2: False
      have "0 \<le> k" using False Suc.prems(2) by (intro two_powi_ge_1D) linarith
      then show ?thesis using False F2 by simp
    qed
  qed
qed

lemma rnd64_half_ulp:
  assumes "x \<noteq> 0"
  shows "\<bar>rnd64 x - x\<bar> \<le> 2 powi (max (ilog2 1100 \<bar>x\<bar>) (- 1022) - 53)"
proof -
  define e where "e = max (ilog2 1100 \<bar>x\<bar>) (- 1022)"
  define ulp :: real where "ulp = 2 powi (e - 52)"
  have ulp: "0 < ulp" by (simp add: ulp_def two_powi_pos)
  have r: "rnd64 x = of_int (rint (x / ulp)) * ulp"
    using assms by (simp add: rnd64_def Let_def e_def ulp_def)
  have "\<bar>of_int (rint (x / ulp)) - x / ulp\<bar> \<le> 1 / 2" by (rule rint_close)
  then have "\<bar>of_int (rint (x / ulp)) - x / ulp\<bar> * ulp \<le> 1 / 2 * ulp"
    using ulp by (intro mult_right_mono) simp_all
  moreover have "\<bar>of_int (rint (x / ulp)) - x / ulp\<bar> * ulp = \<bar>rnd64 x - x\<bar>"
  proof -
    have "\<bar>of_int (rint (x / ulp)) - x / ulp\<bar> * ulp
        = \<bar>(of_int (rint (x / ulp)) - x / ulp) * ulp\<bar>"
      using ulp by (simp add: abs_mult)
    also have "(of_int (rint (x / ulp)) - x / ulp) * ulp = rnd64 x - x"
      using ulp by (simp add: r left_diff_distrib)
    finally show ?thesis .
  qed
  moreover have "1 / 2 * ulp = 2 powi (e - 53)"
    using two_powi_pred[of "e - 52"] by (simp add: ulp_def)
  ultimately show ?thesis by (simp add: e_def)
qed

lemma rnd64_error:
  assumes "\<bar>x\<bar> \<le> 2 powi k" "- 1022 \<le> k"
  shows "\<bar>rnd64 x - x\<bar> \<le> 2 powi (k - 53)"
proof (cases "x = 0")
  case True
  then show ?thesis by (simp add: rnd64_def less_imp_le two_powi_pos)
next
  case False
  have "ilog2 1100 \<bar>x\<bar> \<le> k"
    using False assms by (intro ilog2_le) simp_all
  then have "max (ilog2 1100 \<bar>x\<bar>) (- 1022) - 53 \<le> k - 53"
    using assms(2) by simp
  then have "(2::real) powi (max (ilog2 1100 \<bar>x\<bar>) (- 1022) - 53) \<le> 2 powi (k - 53)"
    by (intro power_int_increasing) simp_all
  with rnd64_half_ulp[OF False] show ?thesis by linarith
qed

lemma rnd64_sign: "(0 \<le> x \<longrightarrow> 0 \<le> rnd64 x) \<and> (x \<le> 0 \<longrightarrow> rnd64 x \<le> 0)"
proof (cases "x = 0")
  case True
  then show ?thesis by (simp add: rnd64_def)
next
  case False
  define ulp :: real where "ulp = 2 powi (max (ilog2 1100 \<bar>x\<bar>) (- 1022) - 52)"
  have ulp: "0 < ulp" by (simp add: ulp_def two_powi_pos)
  have r: "rnd64 x = of_int (rint (x / ulp)) * ulp"
    using False by (simp add: rnd64_def Let_def ulp_def)
  have "0 \<le> x \<Longrightarrow> 0 \<le> x / ulp" "x \<le> 0 \<Longrightarrow> x / ulp \<le> 0"
    using ulp by (simp_all add: divide_nonpos_pos)
  with rint_sign[of "x / ulp"] have "0 \<le> x \<Longrightarrow> 0 \<le> rint (x / ulp)" "x \<le> 0 \<Longrightarrow> rint (x / ulp) \<le> 0"
    by blast+
  then show ?thesis
    using ulp by (auto simp: r mult_nonneg_nonneg mult_nonpos_nonneg)
qed

text \<open>Relative error, away from the subnormal range.\<close>

lemma two_powi_cover:
  assumes "0 < (x::real)"
  shows "\<exists>k. 2 powi (k - 1) < x \<and> x \<le> 2 powi k"
proof -
  define k where "k = \<lceil>log 2 x\<rceil>"
  have "real_of_int k - 1 < log 2 x" "log 2 x \<le> real_of_int k"
    unfolding k_def by linarith+
  then have "2 powr (real_of_int k - 1) < 2 powr (log 2 x)" "2 powr (log 2 x) \<le> 2 powr (real_of_int k)"
    by simp_all
  moreover have "2 powr (log 2 x) = x" using assms by simp
  moreover have "2 powr (real_of_int k - 1) = 2 powi (k - 1)"
    using powr_real_of_int'[of 2 "k - 1"] by simp
  moreover have "2 powr (real_of_int k) = 2 powi k"
    using powr_real_of_int'[of 2 k] by simp
  ultimately show ?thesis by auto
qed

lemma rnd64_relative:
  assumes "2 powi (- 1022) \<le> \<bar>x\<bar>"
  shows "\<bar>rnd64 x - x\<bar> \<le> 2 powi (- 52) * \<bar>x\<bar>"
proof -
  have pos: "0 < \<bar>x\<bar>" using assms two_powi_pos[of "- 1022"] by linarith
  then obtain k where k: "2 powi (k - 1) < \<bar>x\<bar>" "\<bar>x\<bar> \<le> 2 powi k"
    using two_powi_cover by blast
  have "- 1022 \<le> k"
  proof (rule ccontr)
    assume "\<not> - 1022 \<le> k"
    then have "(2::real) powi k \<le> 2 powi (- 1023)" by (intro power_int_increasing) simp_all
    moreover have "(2::real) powi (- 1023) < 2 powi (- 1022)"
      by (intro power_int_strict_increasing) simp_all
    ultimately show False using k(2) assms by linarith
  qed
  with k(2) have "\<bar>rnd64 x - x\<bar> \<le> 2 powi (k - 53)" by (rule rnd64_error)
  also have "(2::real) powi (k - 53) = 2 powi (- 52) * 2 powi (k - 1)"
  proof -
    have "(2::real) powi (- 52 + (k - 1)) = 2 powi (- 52) * 2 powi (k - 1)"
      by (rule power_int_add) simp
    moreover have "- 52 + (k - 1) = k - 53" by simp
    ultimately show ?thesis by (simp only:)
  qed
  also have "\<dots> \<le> 2 powi (- 52) * \<bar>x\<bar>"
    using k(1) by (intro mult_left_mono) (simp_all add: less_imp_le two_powi_pos)
  finally show ?thesis .
qed

lemma rnd64_error_numeral:
  assumes "\<bar>x\<bar> \<le> 2 ^ n" 
  shows "\<bar>rnd64 x - x\<bar> \<le> 2 ^ n / 2 ^ 53"
proof -
  have "\<bar>x\<bar> \<le> 2 powi (int n)" using assms by simp
  then have "\<bar>rnd64 x - x\<bar> \<le> 2 powi (int n - 53)" by (rule rnd64_error) simp
  also have "(2::real) powi (int n - 53) = 2 ^ n / 2 ^ 53"
    by (simp add: power_int_diff)
  finally show ?thesis .
qed

lemma rnd64_error_1: "\<bar>x\<bar> \<le> 2 \<Longrightarrow> \<bar>rnd64 x - x\<bar> \<le> 1 / 2 ^ 52"
  using rnd64_error_numeral[of x 1] by simp

lemma rnd64_error_10: "\<bar>x\<bar> \<le> 1024 \<Longrightarrow> \<bar>rnd64 x - x\<bar> \<le> 1 / 2 ^ 43"
  using rnd64_error_numeral[of x 10] by simp

lemma rnd64_error_13: "\<bar>x\<bar> \<le> 8192 \<Longrightarrow> \<bar>rnd64 x - x\<bar> \<le> 1 / 2 ^ 40"
  using rnd64_error_numeral[of x 13] by simp

lemma rnd64_error_14: "\<bar>x\<bar> \<le> 16384 \<Longrightarrow> \<bar>rnd64 x - x\<bar> \<le> 1 / 2 ^ 39"
  using rnd64_error_numeral[of x 14] by simp

lemma rnd64_error_20: "\<bar>x\<bar> \<le> 1048576 \<Longrightarrow> \<bar>rnd64 x - x\<bar> \<le> 1 / 2 ^ 33"
  using rnd64_error_numeral[of x 20] by simp

lemma rnd64_error_23: "\<bar>x\<bar> \<le> 8388608 \<Longrightarrow> \<bar>rnd64 x - x\<bar> \<le> 1 / 2 ^ 30"
  using rnd64_error_numeral[of x 23] by simp

lemma rnd64_error_24: "\<bar>x\<bar> \<le> 16777216 \<Longrightarrow> \<bar>rnd64 x - x\<bar> \<le> 1 / 2 ^ 29"
  using rnd64_error_numeral[of x 24] by simp

lemma product_error:
  fixes a b A B :: real
  assumes "\<bar>a - A\<bar> \<le> ea" "\<bar>b - B\<bar> \<le> eb" "\<bar>b\<bar> \<le> Mb" "\<bar>A\<bar> \<le> MA"
  shows "\<bar>a * b - A * B\<bar> \<le> ea * Mb + MA * eb"
proof -
  have "a * b - A * B = (a - A) * b + A * (b - B)" by (simp add: algebra_simps)
  then have "\<bar>a * b - A * B\<bar> \<le> \<bar>a - A\<bar> * \<bar>b\<bar> + \<bar>A\<bar> * \<bar>b - B\<bar>"
    by (metis abs_mult abs_triangle_ineq)
  also have "\<bar>a - A\<bar> * \<bar>b\<bar> \<le> ea * Mb"
    using assms(1,3) by (intro mult_mono) (auto intro: order_trans[of 0 "\<bar>a - A\<bar>"])
  also have "\<bar>A\<bar> * \<bar>b - B\<bar> \<le> MA * eb"
    using assms(2,4) by (intro mult_mono) (auto intro: order_trans[of 0 "\<bar>A\<bar>"])
  finally show ?thesis by simp
qed

lemma ilog2_numeral:
  "ilog2 (numeral k) x =
     (if x < 1 then ilog2 (pred_numeral k) (2 * x) - 1
      else if 2 \<le> x then ilog2 (pred_numeral k) (x / 2) + 1 else 0)"
  by (simp add: numeral_eq_Suc)

section \<open>The payoff functions in float64\<close>

lemma bull_call_spread_f64_pointwise:
  "calculate_bull_call_spread_payoff_f64 spot_prices buy_call_strike buy_call_premium
       sell_call_strike sell_call_premium lot_size =
   map (\<lambda>S. rnd64 (rnd64 (rnd64 (max (rnd64 (S - buy_call_strike)) 0 - buy_call_premium) +
                          rnd64 (sell_call_premium - max (rnd64 (S - sell_call_strike)) 0))
                   * rnd64 (of_int lot_size)))
     spot_prices"
  unfolding calculate_bull_call_spread_payoff_f64_def Let_def f64_sub_scalar_def np_maximum_def
    f64_scalar_sub_def f64_add_def f64_mul_scalar_def
  by (induction spot_prices) simp_all

lemma iron_condor_f64_pointwise:
  "calculate_iron_condor_payoff_f64 spot_prices buy_put_strike buy_put_premium sell_put_strike
       sell_put_premium sell_call_strike sell_call_premium buy_call_strike buy_call_premium
       lot_size =
   map (\<lambda>S. rnd64 (rnd64 (
               rnd64 (rnd64 (max (rnd64 (buy_put_strike - S)) 0 - buy_put_premium) +
                      rnd64 (sell_put_premium - max (rnd64 (sell_put_strike - S)) 0)) +
               rnd64 (rnd64 (max (rnd64 (S - buy_call_strike)) 0 - buy_call_premium) +
                      rnd64 (sell_call_premium - max (rnd64 (S - sell_call_strike)) 0)))
             * rnd64 (of_int lot_size)))
     spot_prices"
  unfolding calculate_iron_condor_payoff_f64_def Let_def f64_sub_scalar_def np_maximum_def
    f64_scalar_sub_def f64_add_def f64_mul_scalar_def
  by (induction spot_prices) simp_all

text \<open>A bought leg \<open>max d 0 - p\<close> and a sold leg \<open>p - max d 0\<close>, with \<open>d\<close> rounded first.\<close>

lemma bought_leg_error:
  assumes "\<bar>d\<bar> \<le> 5000" "0 \<le> p" "p \<le> 1000"
  shows "\<bar>rnd64 (max (rnd64 d) 0 - p) - (max d 0 - p)\<bar> \<le> 1 / 2 ^ 39"
proof -
  have e1: "\<bar>rnd64 d - d\<bar> \<le> 1 / 2 ^ 40" using assms(1) by (intro rnd64_error_13) simp
  then have "\<bar>max (rnd64 d) 0 - p\<bar> \<le> 8192"
    using assms unfolding abs_le_iff max_def by (auto split: if_splits)
  then have "\<bar>rnd64 (max (rnd64 d) 0 - p) - (max (rnd64 d) 0 - p)\<bar> \<le> 1 / 2 ^ 40"
    by (rule rnd64_error_13)
  then show ?thesis
    using e1 unfolding abs_le_iff max_def by (auto split: if_splits)
qed

lemma sold_leg_error:
  assumes "\<bar>d\<bar> \<le> 5000" "0 \<le> p" "p \<le> 1000"
  shows "\<bar>rnd64 (p - max (rnd64 d) 0) - (p - max d 0)\<bar> \<le> 1 / 2 ^ 39"
proof -
  have e1: "\<bar>rnd64 d - d\<bar> \<le> 1 / 2 ^ 40" using assms(1) by (intro rnd64_error_13) simp
  then have "\<bar>p - max (rnd64 d) 0\<bar> \<le> 8192"
    using assms unfolding abs_le_iff max_def by (auto split: if_splits)
  then have "\<bar>rnd64 (p - max (rnd64 d) 0) - (p - max (rnd64 d) 0)\<bar> \<le> 1 / 2 ^ 40"
    by (rule rnd64_error_13)
  then show ?thesis
    using e1 unfolding abs_le_iff max_def by (auto split: if_splits)
qed

text \<open>A spread: the rounded sum of a bought and a sold leg on the same side.\<close>

lemma spread_error:
  assumes "\<bar>a - A\<bar> \<le> 1 / 2 ^ 39" "\<bar>b - B\<bar> \<le> 1 / 2 ^ 39" "\<bar>A + B\<bar> \<le> 6000"
  shows "\<bar>rnd64 (a + b) - (A + B)\<bar> \<le> 5 / 2 ^ 40"
proof -
  have "\<bar>a + b\<bar> \<le> 8192" using assms unfolding abs_le_iff by auto
  then have "\<bar>rnd64 (a + b) - (a + b)\<bar> \<le> 1 / 2 ^ 40" by (rule rnd64_error_13)
  then show ?thesis using assms(1,2) unfolding abs_le_iff by auto
qed

lemma lot_error:
  assumes "1 \<le> lot_size" "lot_size \<le> 1000"
  shows "\<bar>rnd64 (of_int lot_size) - of_int lot_size\<bar> \<le> 1 / 2 ^ 43"
proof -
  have "\<bar>real_of_int lot_size\<bar> \<le> 1024" using assms by simp
  then show ?thesis by (rule rnd64_error_10)
qed

lemma call_spread_exact_range:
  fixes S k1 k2 p1 p2 :: real
  assumes "0 \<le> S" "S \<le> 5000" "0 \<le> k1" "k1 \<le> 5000" "0 \<le> k2" "k2 \<le> 5000"
    "0 \<le> p1" "p1 \<le> 1000" "0 \<le> p2" "p2 \<le> 1000"
  shows "\<bar>(max (S - k1) 0 - p1) + (p2 - max (S - k2) 0)\<bar> \<le> 6000"
  using assms unfolding abs_le_iff max_def by (auto split: if_splits)

lemma put_spread_exact_range:
  fixes S k1 k2 p1 p2 :: real
  assumes "0 \<le> S" "S \<le> 5000" "0 \<le> k1" "k1 \<le> 5000" "0 \<le> k2" "k2 \<le> 5000"
    "0 \<le> p1" "p1 \<le> 1000" "0 \<le> p2" "p2 \<le> 1000"
  shows "\<bar>(max (k1 - S) 0 - p1) + (p2 - max (k2 - S) 0)\<bar> \<le> 6000"
  using assms unfolding abs_le_iff max_def by (auto split: if_splits)

lemma bull_call_spread_f64_error:
  assumes "0 \<le> S" "S \<le> 5000" "0 \<le> k1" "k1 \<le> 5000" "0 \<le> k2" "k2 \<le> 5000"
    "0 \<le> p1" "p1 \<le> 1000" "0 \<le> p2" "p2 \<le> 1000" "1 \<le> lot_size" "lot_size \<le> 1000"
  shows "\<bar>rnd64 (rnd64 (rnd64 (max (rnd64 (S - k1)) 0 - p1) + rnd64 (p2 - max (rnd64 (S - k2)) 0))
                 * rnd64 (of_int lot_size))
          - ((max (S - k1) 0 - p1) + (p2 - max (S - k2) 0)) * of_int lot_size\<bar>
         \<le> 1 / 10 ^ 8"
proof -
  define A where "A = max (S - k1) 0 - p1"
  define B where "B = p2 - max (S - k2) 0"
  define a where "a = rnd64 (max (rnd64 (S - k1)) 0 - p1)"
  define b where "b = rnd64 (p2 - max (rnd64 (S - k2)) 0)"
  define s where "s = rnd64 (a + b)"
  define L where "L = rnd64 (of_int lot_size)"
  define n :: real where "n = of_int lot_size"
  have d1: "\<bar>S - k1\<bar> \<le> 5000" and d2: "\<bar>S - k2\<bar> \<le> 5000"
    using assms by (simp_all add: abs_le_iff)
  have ea: "\<bar>a - A\<bar> \<le> 1 / 2 ^ 39"
    unfolding a_def A_def using d1 assms(7,8) by (rule bought_leg_error)
  have eb: "\<bar>b - B\<bar> \<le> 1 / 2 ^ 39"
    unfolding b_def B_def using d2 assms(9,10) by (rule sold_leg_error)
  have AB: "\<bar>A + B\<bar> \<le> 6000"
    unfolding A_def B_def using assms(1-10) by (rule call_spread_exact_range)
  have es: "\<bar>s - (A + B)\<bar> \<le> 5 / 2 ^ 40"
    unfolding s_def using ea eb AB by (rule spread_error)
  have eL: "\<bar>L - n\<bar> \<le> 1 / 2 ^ 43"
    unfolding L_def n_def using assms(11,12) by (rule lot_error)
  have n: "1 \<le> n" "n \<le> 1000" using assms(11,12) by (simp_all add: n_def)
  have L: "\<bar>L\<bar> \<le> 1001" using eL n unfolding abs_le_iff by auto
  have prod: "\<bar>s * L - (A + B) * n\<bar> \<le> 5 / 2 ^ 40 * 1001 + 6000 * (1 / 2 ^ 43)"
    using es eL L AB by (rule product_error)
  have "\<bar>(A + B) * n\<bar> \<le> 6000 * 1000"
    unfolding abs_mult using AB n by (intro mult_mono) simp_all
  then have "\<bar>s * L\<bar> \<le> 8388608" using prod unfolding abs_le_iff by auto
  then have "\<bar>rnd64 (s * L) - s * L\<bar> \<le> 1 / 2 ^ 30" by (rule rnd64_error_23)
  then have "\<bar>rnd64 (s * L) - (A + B) * n\<bar> \<le> 1 / 10 ^ 8"
    using prod unfolding abs_le_iff by auto
  then show ?thesis
    by (simp add: s_def a_def b_def L_def A_def B_def n_def)
qed

lemma iron_condor_f64_error:
  assumes "0 \<le> S" "S \<le> 5000" "0 \<le> bp" "bp \<le> 5000" "0 \<le> sp" "sp \<le> 5000"
    "0 \<le> sc" "sc \<le> 5000" "0 \<le> bc" "bc \<le> 5000"
    "0 \<le> bpp" "bpp \<le> 1000" "0 \<le> spp" "spp \<le> 1000"
    "0 \<le> scp" "scp \<le> 1000" "0 \<le> bcp" "bcp \<le> 1000"
    "1 \<le> lot_size" "lot_size \<le> 1000"
  shows "\<bar>rnd64 (rnd64 (
               rnd64 (rnd64 (max (rnd64 (bp - S)) 0 - bpp) + rnd64 (spp - max (rnd64 (sp - S)) 0)) +
               rnd64 (rnd64 (max (rnd64 (S - bc)) 0 - bcp) + rnd64 (scp - max (rnd64 (S - sc)) 0)))
             * rnd64 (of_int lot_size))
          - (((max (bp - S) 0 - bpp) + (spp - max (sp - S) 0)) +
             ((max (S - bc) 0 - bcp) + (scp - max (S - sc) 0))) * of_int lot_size\<bar>
         \<le> 2 / 10 ^ 8"
proof -
  define PS where "PS = (max (bp - S) 0 - bpp) + (spp - max (sp - S) 0)"
  define CS where "CS = (max (S - bc) 0 - bcp) + (scp - max (S - sc) 0)"
  define ps where "ps = rnd64 (rnd64 (max (rnd64 (bp - S)) 0 - bpp) + rnd64 (spp - max (rnd64 (sp - S)) 0))"
  define cs where "cs = rnd64 (rnd64 (max (rnd64 (S - bc)) 0 - bcp) + rnd64 (scp - max (rnd64 (S - sc)) 0))"
  define t where "t = rnd64 (ps + cs)"
  define L where "L = rnd64 (of_int lot_size)"
  define n :: real where "n = of_int lot_size"
  have d: "\<bar>bp - S\<bar> \<le> 5000" "\<bar>sp - S\<bar> \<le> 5000" "\<bar>S - bc\<bar> \<le> 5000" "\<bar>S - sc\<bar> \<le> 5000"
    using assms(1-10) by (simp_all add: abs_le_iff)
  have PS: "\<bar>PS\<bar> \<le> 6000"
    unfolding PS_def using assms(1-2) assms(3-6) assms(11-14) by (rule put_spread_exact_range)
  have CS: "\<bar>CS\<bar> \<le> 6000"
    unfolding CS_def using assms(1-2) assms(9-10) assms(7-8) assms(17-18) assms(15-16)
    by (rule call_spread_exact_range)
  have eps: "\<bar>ps - PS\<bar> \<le> 5 / 2 ^ 40"
    unfolding ps_def PS_def
    by (rule spread_error[OF bought_leg_error[OF d(1) assms(11,12)]
          sold_leg_error[OF d(2) assms(13,14)] PS[unfolded PS_def]])
  have ecs: "\<bar>cs - CS\<bar> \<le> 5 / 2 ^ 40"
    unfolding cs_def CS_def
    by (rule spread_error[OF bought_leg_error[OF d(3) assms(17,18)]
          sold_leg_error[OF d(4) assms(15,16)] CS[unfolded CS_def]])
  have "\<bar>ps + cs\<bar> \<le> 16384" using eps ecs PS CS unfolding abs_le_iff by auto
  then have "\<bar>t - (ps + cs)\<bar> \<le> 1 / 2 ^ 39" unfolding t_def by (rule rnd64_error_14)
  then have et: "\<bar>t - (PS + CS)\<bar> \<le> 3 / 2 ^ 38"
    using eps ecs unfolding abs_le_iff by auto
  have PC: "\<bar>PS + CS\<bar> \<le> 12000" using PS CS unfolding abs_le_iff by auto
  have eL: "\<bar>L - n\<bar> \<le> 1 / 2 ^ 43"
    unfolding L_def n_def using assms(19,20) by (rule lot_error)
  have n: "1 \<le> n" "n \<le> 1000" using assms(19,20) by (simp_all add: n_def)
  have L: "\<bar>L\<bar> \<le> 1001" using eL n unfolding abs_le_iff by auto
  have prod: "\<bar>t * L - (PS + CS) * n\<bar> \<le> 3 / 2 ^ 38 * 1001 + 12000 * (1 / 2 ^ 43)"
    using et eL L PC by (rule product_error)
  have "\<bar>(PS + CS) * n\<bar> \<le> 12000 * 1000"
    unfolding abs_mult using PC n by (intro mult_mono) simp_all
  then have "\<bar>t * L\<bar> \<le> 16777216" using prod unfolding abs_le_iff by auto
  then have "\<bar>rnd64 (t * L) - t * L\<bar> \<le> 1 / 2 ^ 29" by (rule rnd64_error_24)
  then have "\<bar>rnd64 (t * L) - (PS + CS) * n\<bar> \<le> 2 / 10 ^ 8"
    using prod unfolding abs_le_iff by auto
  then show ?thesis
    by (simp add: t_def ps_def cs_def L_def PS_def CS_def n_def)
qed

lemma bull_call_spread_exact_bounds:
  fixes S :: real
  assumes "buy_call_strike \<le> sell_call_strike" "0 < lot_size"
  shows "- (buy_call_premium - sell_call_premium) * of_int lot_size
      \<le> ((max (S - buy_call_strike) 0 - buy_call_premium)
         + (sell_call_premium - max (S - sell_call_strike) 0)) * of_int lot_size
    \<and> ((max (S - buy_call_strike) 0 - buy_call_premium)
         + (sell_call_premium - max (S - sell_call_strike) 0)) * of_int lot_size
      \<le> (sell_call_strike - buy_call_strike - (buy_call_premium - sell_call_premium))
          * of_int lot_size"
proof -
  have lot: "0 \<le> (of_int lot_size :: real)" using assms(2) by simp
  have lo: "- (buy_call_premium - sell_call_premium)
      \<le> (max (S - buy_call_strike) 0 - buy_call_premium)
        + (sell_call_premium - max (S - sell_call_strike) 0)"
    using assms(1) by (simp add: max_def)
  have hi: "(max (S - buy_call_strike) 0 - buy_call_premium)
        + (sell_call_premium - max (S - sell_call_strike) 0)
      \<le> sell_call_strike - buy_call_strike - (buy_call_premium - sell_call_premium)"
    using assms(1) by (simp add: max_def)
  show ?thesis
    using mult_right_mono[OF lo lot] mult_right_mono[OF hi lot] by simp
qed

lemma iron_condor_exact_top:
  fixes S :: real
  assumes "buy_put_strike \<le> sell_put_strike" "sell_call_strike \<le> buy_call_strike"
    "0 < lot_size"
  shows "(((max (buy_put_strike - S) 0 - buy_put_premium) +
              (sell_put_premium - max (sell_put_strike - S) 0)) +
          ((max (S - buy_call_strike) 0 - buy_call_premium) +
              (sell_call_premium - max (S - sell_call_strike) 0))) * of_int lot_size
        \<le> (sell_put_premium - buy_put_premium + sell_call_premium - buy_call_premium)
            * of_int lot_size"
proof -
  have lot: "0 \<le> (of_int lot_size :: real)" using assms(3) by simp
  have "((max (buy_put_strike - S) 0 - buy_put_premium) +
              (sell_put_premium - max (sell_put_strike - S) 0)) +
          ((max (S - buy_call_strike) 0 - buy_call_premium) +
              (sell_call_premium - max (S - sell_call_strike) 0))
        \<le> sell_put_premium - buy_put_premium + sell_call_premium - buy_call_premium"
    using assms(1,2) by (simp add: max_def)
  from mult_right_mono[OF this lot] show ?thesis .
qed

text \<open>
  Claim C5, as stated: for every Bull Call Spread parameter set with
  \<open>netDebit = buyCallPremium - sellCallPremium > 0\<close> and every spot price, the payoff is
  at most \<open>(sellCallStrike - buyCallStrike - netDebit) * lotSize\<close> and at least
  \<open>- netDebit * lotSize\<close>. In exact arithmetic that is so
  (\<open>bull_call_spread_exact_bounds\<close>); the program's float64 value can exceed the upper
  bound by a rounding error. With strikes 100 and 110, premiums 0.3 and 0.1 (the nearest
  float64 values) and lot size 1, the payoff at the last grid point 5000 is
  \<open>9.800000000000182\<close>, above the bound \<open>9.8\<close>, whether the bound is taken exactly or
  as float64 computes it.
\<close>

theorem C5_float_rounding_counterexample:
  "0 < rnd64 (3 / 10) - rnd64 (1 / 10) \<and>
   calculate_bull_call_spread_payoff_f64 [5000] 100 (rnd64 (3 / 10)) 110 (rnd64 (1 / 10)) 1
     = [10775213952205 / 1099511627776] \<and>
   (110 - 100 - (rnd64 (3 / 10) - rnd64 (1 / 10))) * real_of_int 1
     < 10775213952205 / 1099511627776 \<and>
   rnd64 (98 / 10) < 10775213952205 / 1099511627776"
proof -
  define p1 where "p1 = rnd64 (3 / 10)"
  have p1_v: "p1 = 5404319552844595 / 18014398509481984"
    unfolding p1_def by (simp add: rnd64_def ilog2_numeral rint_def Let_def power_int_minus)
  define p2 where "p2 = rnd64 (1 / 10)"
  have p2_v: "p2 = 3602879701896397 / 36028797018963968"
    unfolding p2_def by (simp add: rnd64_def ilog2_numeral rint_def Let_def power_int_minus)
  define d1 where "d1 = rnd64 (5000 - 100)"
  have d1_v: "d1 = 4900"
    unfolding d1_def by (simp add: rnd64_def ilog2_numeral rint_def Let_def power_int_minus)
  define buy where "buy = rnd64 (max d1 0 - p1)"
  have buy_v: "buy = 5387277122614067 / 1099511627776"
    unfolding buy_def by (simp only: d1_v p1_v) (simp add: rnd64_def ilog2_numeral rint_def Let_def power_int_minus)
  define d2 where "d2 = rnd64 (5000 - 110)"
  have d2_v: "d2 = 4890"
    unfolding d2_def by (simp add: rnd64_def ilog2_numeral rint_def Let_def power_int_minus)
  define sell where "sell = rnd64 (p2 - max d2 0)"
  have sell_v: "sell = - (2688250954330931 / 549755813888)"
    unfolding sell_def by (simp only: p2_v d2_v) (simp add: rnd64_def ilog2_numeral rint_def Let_def power_int_minus)
  define net where "net = rnd64 (buy + sell)"
  have net_v: "net = 10775213952205 / 1099511627776"
    unfolding net_def by (simp only: buy_v sell_v) (simp add: rnd64_def ilog2_numeral rint_def Let_def power_int_minus)
  define lot where "lot = rnd64 (real_of_int 1)"
  have lot_v: "lot = 1"
    unfolding lot_def by (simp add: rnd64_def ilog2_numeral rint_def Let_def power_int_minus)
  define pay where "pay = rnd64 (net * lot)"
  have pay_v: "pay = 10775213952205 / 1099511627776"
    unfolding pay_def by (simp only: net_v lot_v) (simp add: rnd64_def ilog2_numeral rint_def Let_def power_int_minus)
  define bound where "bound = rnd64 (98 / 10)"
  have bound_v: "bound = 2758454771764429 / 281474976710656"
    unfolding bound_def by (simp add: rnd64_def ilog2_numeral rint_def Let_def power_int_minus)
  have eq: "calculate_bull_call_spread_payoff_f64 [5000] 100 (rnd64 (3 / 10)) 110
      (rnd64 (1 / 10)) 1 = [pay]"
    unfolding bull_call_spread_f64_pointwise list.map
    p1_def p2_def d1_def buy_def d2_def sell_def net_def lot_def pay_def bound_def
    ..
  show ?thesis
    by (simp only: eq,
        simp only: pay_v p1_v[unfolded p1_def] p2_v[unfolded p2_def] bound_v[unfolded bound_def],
        simp)
qed

text \<open>
  Claim C5, amended: for every Bull Call Spread parameter set in the ranges the page
  admits (\<open>0 \<le> buyCallStrike \<le> sellCallStrike \<le> 5000\<close>, premiums in \<open>(0, 1000]\<close>, lot
  size from 1 to 1000) with \<open>netDebit = buyCallPremium - sellCallPremium > 0\<close>, and for
  every spot price of a grid in \<open>[0, 5000]\<close>, the payoff computed in float64 is within
  \<open>10 ^ (- 8)\<close> of the exact value of the formula, so it is at least
  \<open>- netDebit * lotSize - 10 ^ (- 8)\<close> and at most
  \<open>(sellCallStrike - buyCallStrike - netDebit) * lotSize + 10 ^ (- 8)\<close>.
\<close>

theorem C5_bull_call_spread_float_bounds:
  assumes "0 \<le> buy_call_strike" "buy_call_strike \<le> sell_call_strike"
    "sell_call_strike \<le> 5000"
    "0 < buy_call_premium" "buy_call_premium \<le> 1000"
    "0 < sell_call_premium" "sell_call_premium \<le> 1000"
    "1 \<le> lot_size" "lot_size \<le> 1000"
    "buy_call_premium - sell_call_premium > 0"
    "\<forall>S\<in>set spot_prices. 0 \<le> S \<and> S \<le> 5000"
  shows "\<forall>i<length spot_prices.
      \<bar>calculate_bull_call_spread_payoff_f64 spot_prices buy_call_strike buy_call_premium
          sell_call_strike sell_call_premium lot_size ! i
        - calculate_bull_call_spread_payoff spot_prices buy_call_strike buy_call_premium
          sell_call_strike sell_call_premium lot_size ! i\<bar> \<le> 1 / 10 ^ 8
    \<and> - (buy_call_premium - sell_call_premium) * of_int lot_size - 1 / 10 ^ 8
      \<le> calculate_bull_call_spread_payoff_f64 spot_prices buy_call_strike buy_call_premium
          sell_call_strike sell_call_premium lot_size ! i
    \<and> calculate_bull_call_spread_payoff_f64 spot_prices buy_call_strike buy_call_premium
          sell_call_strike sell_call_premium lot_size ! i
      \<le> (sell_call_strike - buy_call_strike - (buy_call_premium - sell_call_premium))
          * of_int lot_size + 1 / 10 ^ 8"
proof (intro allI impI)
  fix i assume i: "i < length spot_prices"
  define S where "S = spot_prices ! i"
  have S: "0 \<le> S" "S \<le> 5000" using assms(11) i by (simp_all add: S_def)
  define exact where "exact = ((max (S - buy_call_strike) 0 - buy_call_premium)
         + (sell_call_premium - max (S - sell_call_strike) 0)) * of_int lot_size"
  define float where "float = rnd64 (rnd64 (rnd64 (max (rnd64 (S - buy_call_strike)) 0 - buy_call_premium) +
                          rnd64 (sell_call_premium - max (rnd64 (S - sell_call_strike)) 0))
                   * rnd64 (of_int lot_size))"
  have f: "calculate_bull_call_spread_payoff_f64 spot_prices buy_call_strike buy_call_premium
          sell_call_strike sell_call_premium lot_size ! i = float"
    using i by (simp add: bull_call_spread_f64_pointwise S_def float_def)
  have e: "calculate_bull_call_spread_payoff spot_prices buy_call_strike buy_call_premium
          sell_call_strike sell_call_premium lot_size ! i = exact"
    using i by (simp add: bull_call_spread_pointwise S_def exact_def)
  have k: "0 \<le> sell_call_strike" "buy_call_strike \<le> 5000" using assms(1-3) by simp_all
  have p: "0 \<le> buy_call_premium" "0 \<le> sell_call_premium" using assms(4,6) by simp_all
  have err: "\<bar>float - exact\<bar> \<le> 1 / 10 ^ 8"
    unfolding float_def exact_def
    using S assms(1) k(2) k(1) assms(3) p(1) assms(5) p(2) assms(7) assms(8,9)
    by (rule bull_call_spread_f64_error)
  have lot: "0 < lot_size" using assms(8) by simp
  from bull_call_spread_exact_bounds[OF assms(2) lot, of buy_call_premium sell_call_premium S]
  have b: "- (buy_call_premium - sell_call_premium) * of_int lot_size \<le> exact"
    "exact \<le> (sell_call_strike - buy_call_strike - (buy_call_premium - sell_call_premium))
          * of_int lot_size"
    by (simp_all add: exact_def)
  show "\<bar>calculate_bull_call_spread_payoff_f64 spot_prices buy_call_strike buy_call_premium
          sell_call_strike sell_call_premium lot_size ! i
        - calculate_bull_call_spread_payoff spot_prices buy_call_strike buy_call_premium
          sell_call_strike sell_call_premium lot_size ! i\<bar> \<le> 1 / 10 ^ 8
    \<and> - (buy_call_premium - sell_call_premium) * of_int lot_size - 1 / 10 ^ 8
      \<le> calculate_bull_call_spread_payoff_f64 spot_prices buy_call_strike buy_call_premium
          sell_call_strike sell_call_premium lot_size ! i
    \<and> calculate_bull_call_spread_payoff_f64 spot_prices buy_call_strike buy_call_premium
          sell_call_strike sell_call_premium lot_size ! i
      \<le> (sell_call_strike - buy_call_strike - (buy_call_premium - sell_call_premium))
          * of_int lot_size + 1 / 10 ^ 8"
    unfolding f e using err b unfolding abs_le_iff by auto
qed

theorem C5_bull_call_spread_float_bounds_witness:
  "- (5 - 2) * real_of_int 2 - 1 / 10 ^ 8
      \<le> calculate_bull_call_spread_payoff_f64 [0, 100, 105, 110, 5000] 100 5 110 2 2 ! 4 \<and>
   calculate_bull_call_spread_payoff_f64 [0, 100, 105, 110, 5000] 100 5 110 2 2 ! 4
      \<le> (110 - 100 - (5 - 2)) * real_of_int 2 + 1 / 10 ^ 8"
proof -
  have g: "\<forall>S\<in>set [0, 100, 105, 110, 5000 :: real]. 0 \<le> S \<and> S \<le> 5000" by simp
  have i: "4 < length [0, 100, 105, 110, 5000 :: real]" by simp
  show ?thesis
    using C5_bull_call_spread_float_bounds [of 100 110 5 2 2 "[0, 100, 105, 110, 5000]",
        OF _ _ _ _ _ _ _ _ _ _ g, rule_format, OF _ _ _ _ _ _ _ _ _ _ i]
    by simp
qed

text \<open>
  Claim C2, as stated: with the strikes ordered
  \<open>buyPutStrike \<le> sellPutStrike \<le> sellCallStrike \<le> buyCallStrike\<close>, the payoff at every
  spot price strictly between the two sold strikes is the constant
  \<open>(sellPutPremium - buyPutPremium + sellCallPremium - buyCallPremium) * lotSize\<close>, and no
  grid point attains a larger payoff. In exact arithmetic that is so
  (\<open>iron_condor_exact_top\<close>); in float64 a grid point on a wing can lie above the flat
  top. With strikes 186, 212, 228, 228, premiums 1.15, 0.42, 1.94, 1.03 and lot size 1000,
  the payoff at the spot price 220 on the flat top is \<open>179.99999999999994\<close>, and at
  point 149 of the page's grid (\<open>149 * (5000 / 999)\<close>, about 745.75) it is
  \<open>180.00000000008188\<close>, which is also above the exact value of the net premium times
  the lot size.
\<close>

theorem C2_float_rounding_counterexample:
  "calculate_iron_condor_payoff_f64 [220, rnd64 (149 * rnd64 (5000 / 999))]
      186 (rnd64 (115 / 100)) 212 (rnd64 (42 / 100)) 228 (rnd64 (194 / 100))
      228 (rnd64 (103 / 100)) 1000
     = [3166593487994879 / 17592186044416, 6333186975992641 / 35184372088832] \<and>
   (212 :: real) < 220 \<and> (220 :: real) < 228 \<and>
   (3166593487994879 / 17592186044416 :: real) < 6333186975992641 / 35184372088832 \<and>
   (rnd64 (42 / 100) - rnd64 (115 / 100) + rnd64 (194 / 100) - rnd64 (103 / 100))
     * real_of_int 1000 < 6333186975992641 / 35184372088832"
proof -
  define bpp where "bpp = rnd64 (115 / 100)"
  have bpp_v: "bpp = 2589569785738035 / 2251799813685248"
    unfolding bpp_def by (simp add: rnd64_def ilog2_numeral rint_def Let_def power_int_minus)
  define spp where "spp = rnd64 (42 / 100)"
  have spp_v: "spp = 7566047373982433 / 18014398509481984"
    unfolding spp_def by (simp add: rnd64_def ilog2_numeral rint_def Let_def power_int_minus)
  define scp where "scp = rnd64 (194 / 100)"
  have scp_v: "scp = 4368491638549381 / 2251799813685248"
    unfolding scp_def by (simp add: rnd64_def ilog2_numeral rint_def Let_def power_int_minus)
  define bcp where "bcp = rnd64 (103 / 100)"
  have bcp_v: "bcp = 4638707616191611 / 4503599627370496"
    unfolding bcp_def by (simp add: rnd64_def ilog2_numeral rint_def Let_def power_int_minus)
  define step where "step = rnd64 (5000 / 999)"
  have step_v: "step = 2817567334441001 / 562949953421312"
    unfolding step_def by (simp add: rnd64_def ilog2_numeral rint_def Let_def power_int_minus)
  define S where "S = rnd64 (149 * step)"
  have S_v: "S = 6559648950495455 / 8796093022208"
    unfolding S_def by (simp only: step_v) (simp add: rnd64_def ilog2_numeral rint_def Let_def power_int_minus)
  define lot where "lot = rnd64 (real_of_int 1000)"
  have lot_v: "lot = 1000"
    unfolding lot_def by (simp add: rnd64_def ilog2_numeral rint_def Let_def power_int_minus)
  define a1i where "a1i = rnd64 (186 - 220)"
  have a1i_v: "a1i = - 34"
    unfolding a1i_def by (simp add: rnd64_def ilog2_numeral rint_def Let_def power_int_minus)
  define ai where "ai = rnd64 (max a1i 0 - bpp)"
  have ai_v: "ai = - (2589569785738035 / 2251799813685248)"
    unfolding ai_def by (simp only: a1i_v bpp_v) (simp add: rnd64_def ilog2_numeral rint_def Let_def power_int_minus)
  define b1i where "b1i = rnd64 (212 - 220)"
  have b1i_v: "b1i = - 8"
    unfolding b1i_def by (simp add: rnd64_def ilog2_numeral rint_def Let_def power_int_minus)
  define bi where "bi = rnd64 (spp - max b1i 0)"
  have bi_v: "bi = 7566047373982433 / 18014398509481984"
    unfolding bi_def by (simp only: spp_v b1i_v) (simp add: rnd64_def ilog2_numeral rint_def Let_def power_int_minus)
  define psi where "psi = rnd64 (ai + bi)"
  have psi_v: "psi = - (1643813863990231 / 2251799813685248)"
    unfolding psi_def by (simp only: ai_v bi_v) (simp add: rnd64_def ilog2_numeral rint_def Let_def power_int_minus)
  define c1i where "c1i = rnd64 (220 - 228)"
  have c1i_v: "c1i = - 8"
    unfolding c1i_def by (simp add: rnd64_def ilog2_numeral rint_def Let_def power_int_minus)
  define ci where "ci = rnd64 (max c1i 0 - bcp)"
  have ci_v: "ci = - (4638707616191611 / 4503599627370496)"
    unfolding ci_def by (simp only: c1i_v bcp_v) (simp add: rnd64_def ilog2_numeral rint_def Let_def power_int_minus)
  define di where "di = rnd64 (scp - max c1i 0)"
  have di_v: "di = 4368491638549381 / 2251799813685248"
    unfolding di_def by (simp only: scp_v c1i_v) (simp add: rnd64_def ilog2_numeral rint_def Let_def power_int_minus)
  define csi where "csi = rnd64 (ci + di)"
  have csi_v: "csi = 4098275660907151 / 4503599627370496"
    unfolding csi_def by (simp only: ci_v di_v) (simp add: rnd64_def ilog2_numeral rint_def Let_def power_int_minus)
  define ti where "ti = rnd64 (psi + csi)"
  have ti_v: "ti = 810647932926689 / 4503599627370496"
    unfolding ti_def by (simp only: psi_v csi_v) (simp add: rnd64_def ilog2_numeral rint_def Let_def power_int_minus)
  define payi where "payi = rnd64 (ti * lot)"
  have payi_v: "payi = 3166593487994879 / 17592186044416"
    unfolding payi_def by (simp only: ti_v lot_v) (simp add: rnd64_def ilog2_numeral rint_def Let_def power_int_minus)
  define a1w where "a1w = rnd64 (186 - S)"
  have a1w_v: "a1w = - (4923575648364767 / 8796093022208)"
    unfolding a1w_def by (simp only: S_v) (simp add: rnd64_def ilog2_numeral rint_def Let_def power_int_minus)
  define aw where "aw = rnd64 (max a1w 0 - bpp)"
  have aw_v: "aw = - (2589569785738035 / 2251799813685248)"
    unfolding aw_def by (simp only: a1w_v bpp_v) (simp add: rnd64_def ilog2_numeral rint_def Let_def power_int_minus)
  define b1w where "b1w = rnd64 (212 - S)"
  have b1w_v: "b1w = - (4694877229787359 / 8796093022208)"
    unfolding b1w_def by (simp only: S_v) (simp add: rnd64_def ilog2_numeral rint_def Let_def power_int_minus)
  define bw where "bw = rnd64 (spp - max b1w 0)"
  have bw_v: "bw = 7566047373982433 / 18014398509481984"
    unfolding bw_def by (simp only: spp_v b1w_v) (simp add: rnd64_def ilog2_numeral rint_def Let_def power_int_minus)
  define psw where "psw = rnd64 (aw + bw)"
  have psw_v: "psw = - (1643813863990231 / 2251799813685248)"
    unfolding psw_def by (simp only: aw_v bw_v) (simp add: rnd64_def ilog2_numeral rint_def Let_def power_int_minus)
  define c1w where "c1w = rnd64 (S - 228)"
  have c1w_v: "c1w = 4554139741432031 / 8796093022208"
    unfolding c1w_def by (simp only: S_v) (simp add: rnd64_def ilog2_numeral rint_def Let_def power_int_minus)
  define cw where "cw = rnd64 (max c1w 0 - bcp)"
  have cw_v: "cw = 4545079765619157 / 8796093022208"
    unfolding cw_def by (simp only: c1w_v bcp_v) (simp add: rnd64_def ilog2_numeral rint_def Let_def power_int_minus)
  define dw where "dw = rnd64 (scp - max c1w 0)"
  have dw_v: "dw = - (4537075320968947 / 8796093022208)"
    unfolding dw_def by (simp only: scp_v c1w_v) (simp add: rnd64_def ilog2_numeral rint_def Let_def power_int_minus)
  define csw where "csw = rnd64 (cw + dw)"
  have csw_v: "csw = 4002222325105 / 4398046511104"
    unfolding csw_def by (simp only: cw_v dw_v) (simp add: rnd64_def ilog2_numeral rint_def Let_def power_int_minus)
  define tw where "tw = rnd64 (psw + csw)"
  have tw_v: "tw = 405323966463529 / 2251799813685248"
    unfolding tw_def by (simp only: psw_v csw_v) (simp add: rnd64_def ilog2_numeral rint_def Let_def power_int_minus)
  define payw where "payw = rnd64 (tw * lot)"
  have payw_v: "payw = 6333186975992641 / 35184372088832"
    unfolding payw_def by (simp only: tw_v lot_v) (simp add: rnd64_def ilog2_numeral rint_def Let_def power_int_minus)
  have eq: "calculate_iron_condor_payoff_f64 [220, rnd64 (149 * rnd64 (5000 / 999))]
      186 (rnd64 (115 / 100)) 212 (rnd64 (42 / 100)) 228 (rnd64 (194 / 100))
      228 (rnd64 (103 / 100)) 1000 = [payi, payw]"
    unfolding iron_condor_f64_pointwise list.map
    bpp_def spp_def scp_def bcp_def step_def S_def lot_def a1i_def ai_def b1i_def bi_def
    psi_def c1i_def ci_def di_def csi_def ti_def payi_def a1w_def aw_def b1w_def bw_def
    psw_def c1w_def cw_def dw_def csw_def tw_def payw_def
    ..
  show ?thesis
    by (simp only: eq,
        simp only: payi_v payw_v bpp_v[unfolded bpp_def] spp_v[unfolded spp_def]
          scp_v[unfolded scp_def] bcp_v[unfolded bcp_def],
        simp)
qed

text \<open>
  Claim C2, amended: for every Iron Condor parameter set in the ranges the page admits
  (\<open>0 \<le> buyPutStrike \<le> sellPutStrike \<le> sellCallStrike \<le> buyCallStrike \<le> 5000\<close>,
  premiums in \<open>(0, 1000]\<close>, lot size from 1 to 1000) and every grid of spot prices in
  \<open>[0, 5000]\<close>: at every grid point strictly between \<open>sellPutStrike\<close> and
  \<open>sellCallStrike\<close> the payoff computed in float64 is one constant, the float64 value of
  \<open>(((0 - buyPutPremium) + (sellPutPremium - 0)) + ((0 - buyCallPremium) + (sellCallPremium - 0))) * lotSize\<close>,
  which is within \<open>2 * 10 ^ (- 8)\<close> of
  \<open>(sellPutPremium - buyPutPremium + sellCallPremium - buyCallPremium) * lotSize\<close>; and no
  grid point attains a payoff larger than that exact value plus \<open>2 * 10 ^ (- 8)\<close>.
\<close>

theorem C2_iron_condor_float_top:
  assumes "0 \<le> buy_put_strike" "buy_put_strike \<le> sell_put_strike"
    "sell_put_strike \<le> sell_call_strike" "sell_call_strike \<le> buy_call_strike"
    "buy_call_strike \<le> 5000"
    "0 < buy_put_premium" "buy_put_premium \<le> 1000"
    "0 < sell_put_premium" "sell_put_premium \<le> 1000"
    "0 < sell_call_premium" "sell_call_premium \<le> 1000"
    "0 < buy_call_premium" "buy_call_premium \<le> 1000"
    "1 \<le> lot_size" "lot_size \<le> 1000"
    "\<forall>S\<in>set spot_prices. 0 \<le> S \<and> S \<le> 5000"
  shows "\<forall>i<length spot_prices.
      calculate_iron_condor_payoff_f64 spot_prices buy_put_strike buy_put_premium
        sell_put_strike sell_put_premium sell_call_strike sell_call_premium buy_call_strike
        buy_call_premium lot_size ! i
      \<le> (sell_put_premium - buy_put_premium + sell_call_premium - buy_call_premium)
          * of_int lot_size + 2 / 10 ^ 8
    \<and> (sell_put_strike < spot_prices ! i \<and> spot_prices ! i < sell_call_strike \<longrightarrow>
      calculate_iron_condor_payoff_f64 spot_prices buy_put_strike buy_put_premium
        sell_put_strike sell_put_premium sell_call_strike sell_call_premium buy_call_strike
        buy_call_premium lot_size ! i
      = rnd64 (rnd64 (rnd64 (rnd64 (0 - buy_put_premium) + rnd64 (sell_put_premium - 0)) +
                      rnd64 (rnd64 (0 - buy_call_premium) + rnd64 (sell_call_premium - 0)))
               * rnd64 (of_int lot_size))
      \<and> \<bar>calculate_iron_condor_payoff_f64 spot_prices buy_put_strike buy_put_premium
          sell_put_strike sell_put_premium sell_call_strike sell_call_premium buy_call_strike
          buy_call_premium lot_size ! i
        - (sell_put_premium - buy_put_premium + sell_call_premium - buy_call_premium)
            * of_int lot_size\<bar> \<le> 2 / 10 ^ 8)"
proof (intro allI impI)
  fix i assume i: "i < length spot_prices"
  define S where "S = spot_prices ! i"
  have S: "0 \<le> S" "S \<le> 5000" using assms(16) i by (simp_all add: S_def)
  define top where "top = (sell_put_premium - buy_put_premium + sell_call_premium
      - buy_call_premium) * real_of_int lot_size"
  define exact where "exact = (((max (buy_put_strike - S) 0 - buy_put_premium) +
              (sell_put_premium - max (sell_put_strike - S) 0)) +
          ((max (S - buy_call_strike) 0 - buy_call_premium) +
              (sell_call_premium - max (S - sell_call_strike) 0))) * real_of_int lot_size"
  define float where "float = rnd64 (rnd64 (
               rnd64 (rnd64 (max (rnd64 (buy_put_strike - S)) 0 - buy_put_premium) +
                      rnd64 (sell_put_premium - max (rnd64 (sell_put_strike - S)) 0)) +
               rnd64 (rnd64 (max (rnd64 (S - buy_call_strike)) 0 - buy_call_premium) +
                      rnd64 (sell_call_premium - max (rnd64 (S - sell_call_strike)) 0)))
             * rnd64 (of_int lot_size))"
  have f: "calculate_iron_condor_payoff_f64 spot_prices buy_put_strike buy_put_premium
        sell_put_strike sell_put_premium sell_call_strike sell_call_premium buy_call_strike
        buy_call_premium lot_size ! i = float"
    using i by (simp add: iron_condor_f64_pointwise S_def float_def)
  have k: "buy_put_strike \<le> 5000" "0 \<le> sell_put_strike" "sell_put_strike \<le> 5000"
    "0 \<le> sell_call_strike" "sell_call_strike \<le> 5000" "0 \<le> buy_call_strike"
    using assms(1-5) by simp_all
  have p: "0 \<le> buy_put_premium" "0 \<le> sell_put_premium" "0 \<le> sell_call_premium"
    "0 \<le> buy_call_premium"
    using assms(6,8,10,12) by simp_all
  have err: "\<bar>float - exact\<bar> \<le> 2 / 10 ^ 8"
    unfolding float_def exact_def
    using S assms(1) k(1) k(2) k(3) k(4) k(5) k(6) assms(5)
      p(1) assms(7) p(2) assms(9) p(3) assms(11) p(4) assms(13) assms(14,15)
    by (rule iron_condor_f64_error)
  have lot: "0 < lot_size" using assms(14) by simp
  have le_top: "exact \<le> top"
    unfolding exact_def top_def using assms(2,4) lot by (rule iron_condor_exact_top)
  have upper: "float \<le> top + 2 / 10 ^ 8"
    using err le_top unfolding abs_le_iff by auto
  have flat: "float = rnd64 (rnd64 (rnd64 (rnd64 (0 - buy_put_premium) + rnd64 (sell_put_premium - 0)) +
                      rnd64 (rnd64 (0 - buy_call_premium) + rnd64 (sell_call_premium - 0)))
               * rnd64 (of_int lot_size))
      \<and> \<bar>float - top\<bar> \<le> 2 / 10 ^ 8"
    if inside: "sell_put_strike < S \<and> S < sell_call_strike"
  proof -
    have neg: "buy_put_strike - S \<le> 0" "sell_put_strike - S \<le> 0"
      "S - buy_call_strike \<le> 0" "S - sell_call_strike \<le> 0"
      using inside assms(2,4) by simp_all
    have z: "max (rnd64 (buy_put_strike - S)) 0 = 0" "max (rnd64 (sell_put_strike - S)) 0 = 0"
      "max (rnd64 (S - buy_call_strike)) 0 = 0" "max (rnd64 (S - sell_call_strike)) 0 = 0"
      using neg rnd64_sign by (simp_all add: max_def)
    have "exact = top"
      using neg by (simp add: exact_def top_def max_def)
    then have "\<bar>float - top\<bar> \<le> 2 / 10 ^ 8" using err by simp
    moreover have "float = rnd64 (rnd64 (rnd64 (rnd64 (0 - buy_put_premium) + rnd64 (sell_put_premium - 0)) +
                      rnd64 (rnd64 (0 - buy_call_premium) + rnd64 (sell_call_premium - 0)))
               * rnd64 (of_int lot_size))"
      unfolding float_def z ..
    ultimately show ?thesis by simp
  qed
  show "calculate_iron_condor_payoff_f64 spot_prices buy_put_strike buy_put_premium
        sell_put_strike sell_put_premium sell_call_strike sell_call_premium buy_call_strike
        buy_call_premium lot_size ! i
      \<le> (sell_put_premium - buy_put_premium + sell_call_premium - buy_call_premium)
          * of_int lot_size + 2 / 10 ^ 8
    \<and> (sell_put_strike < spot_prices ! i \<and> spot_prices ! i < sell_call_strike \<longrightarrow>
      calculate_iron_condor_payoff_f64 spot_prices buy_put_strike buy_put_premium
        sell_put_strike sell_put_premium sell_call_strike sell_call_premium buy_call_strike
        buy_call_premium lot_size ! i
      = rnd64 (rnd64 (rnd64 (rnd64 (0 - buy_put_premium) + rnd64 (sell_put_premium - 0)) +
                      rnd64 (rnd64 (0 - buy_call_premium) + rnd64 (sell_call_premium - 0)))
               * rnd64 (of_int lot_size))
      \<and> \<bar>calculate_iron_condor_payoff_f64 spot_prices buy_put_strike buy_put_premium
          sell_put_strike sell_put_premium sell_call_strike sell_call_premium buy_call_strike
          buy_call_premium lot_size ! i
        - (sell_put_premium - buy_put_premium + sell_call_premium - buy_call_premium)
            * of_int lot_size\<bar> \<le> 2 / 10 ^ 8)"
    unfolding f
  proof (intro conjI impI)
    show "float \<le> (sell_put_premium - buy_put_premium + sell_call_premium - buy_call_premium)
          * of_int lot_size + 2 / 10 ^ 8"
      using upper by (simp only: top_def)
    assume "sell_put_strike < spot_prices ! i \<and> spot_prices ! i < sell_call_strike"
    then have ins: "sell_put_strike < S \<and> S < sell_call_strike" by (simp only: S_def)
    from flat[OF ins]
    show "float = rnd64 (rnd64 (rnd64 (rnd64 (0 - buy_put_premium) + rnd64 (sell_put_premium - 0)) +
                      rnd64 (rnd64 (0 - buy_call_premium) + rnd64 (sell_call_premium - 0)))
               * rnd64 (of_int lot_size))"
      by (rule conjunct1)
    from flat[OF ins] have "\<bar>float - top\<bar> \<le> 2 / 10 ^ 8" by (rule conjunct2)
    then show "\<bar>float - (sell_put_premium - buy_put_premium + sell_call_premium - buy_call_premium)
            * of_int lot_size\<bar> \<le> 2 / 10 ^ 8"
      by (simp only: top_def)
  qed
qed

theorem C2_iron_condor_float_top_witness:
  "calculate_iron_condor_payoff_f64 [0, 95, 105, 115, 5000] 90 2 100 5 110 5 120 2 1 ! 2
     \<le> (5 - 2 + 5 - 2) * real_of_int 1 + 2 / 10 ^ 8 \<and>
   calculate_iron_condor_payoff_f64 [0, 95, 105, 115, 5000] 90 2 100 5 110 5 120 2 1 ! 2
     = rnd64 (rnd64 (rnd64 (rnd64 (0 - 2) + rnd64 (5 - 0)) + rnd64 (rnd64 (0 - 2) + rnd64 (5 - 0)))
              * rnd64 (real_of_int 1)) \<and>
   \<bar>calculate_iron_condor_payoff_f64 [0, 95, 105, 115, 5000] 90 2 100 5 110 5 120 2 1 ! 2
     - (5 - 2 + 5 - 2) * real_of_int 1\<bar> \<le> 2 / 10 ^ 8"
proof -
  have g: "\<forall>S\<in>set [0, 95, 105, 115, 5000 :: real]. 0 \<le> S \<and> S \<le> 5000" by simp
  have i: "2 < length [0, 95, 105, 115, 5000 :: real]" by simp
  show ?thesis
    using C2_iron_condor_float_top [of 90 100 110 120 2 5 5 2 1 "[0, 95, 105, 115, 5000]",
        OF _ _ _ _ _ _ _ _ _ _ _ _ _ _ _ g, rule_format, OF _ _ _ _ _ _ _ _ _ _ _ _ _ _ _ i]
    by auto
qed

section \<open>A single crossing in float64\<close>

lemma interpolate_segment_f64_no_sign_change:
  "i + 1 < length payoff \<Longrightarrow> \<not> sign_change (payoff ! i) (payoff ! (i + 1)) \<Longrightarrow>
   interpolate_segment_f64 tolerance payoff spot_prices i = Inr None"
  by (simp add: interpolate_segment_f64_def np_get_def bind_result_Inr)

lemma breakeven_loop_f64_append:
  "breakeven_loop_f64 tolerance payoff spot_prices (xs @ ys) acc =
   bind_result (breakeven_loop_f64 tolerance payoff spot_prices xs acc)
     (breakeven_loop_f64 tolerance payoff spot_prices ys)"
  by (induction xs arbitrary: acc) (auto simp: bind_result_def split: sum.splits)

lemma breakeven_loop_f64_skip:
  "\<forall>i\<in>set idx. interpolate_segment_f64 tolerance payoff spot_prices i = Inr None \<Longrightarrow>
   breakeven_loop_f64 tolerance payoff spot_prices idx acc = Inr acc"
  by (induction idx) (simp_all add: breakeven_body_f64_def bind_result_Inr)

text \<open>The value of a single crossing: every other segment of the loop records nothing.\<close>

lemma find_breakeven_points_f64_single:
  assumes cross: "crosses_once_at payoff i"
    and seg: "interpolate_segment_f64 tolerance payoff spot_prices i = Inr (Some price)"
  shows "find_breakeven_points_f64 payoff spot_prices tolerance = Inr {f64_round price 2}"
proof -
  have i: "i + 1 < length payoff" using cross by (simp add: crosses_once_at_def)
  note signs = crosses_once_at_signs[OF cross]
  have same: "\<not> sign_change (payoff ! j) (payoff ! (j + 1))"
    if "j + 1 < length payoff" "j \<noteq> i" for j
    using signs
  proof
    assume a: "\<forall>j<length payoff. if j \<le> i then payoff ! j < 0 else 0 < payoff ! j"
    show ?thesis
      using a[rule_format, of j] a[rule_format, of "j + 1"] that
      by (auto simp: sign_change_def split: if_splits)
  next
    assume a: "\<forall>j<length payoff. if j \<le> i then 0 < payoff ! j else payoff ! j < 0"
    show ?thesis
      using a[rule_format, of j] a[rule_format, of "j + 1"] that
      by (auto simp: sign_change_def split: if_splits)
  qed
  have before: "\<forall>j\<in>set [0..<i]. interpolate_segment_f64 tolerance payoff spot_prices j = Inr None"
  proof
    fix j assume "j \<in> set [0..<i]"
    then have j: "j + 1 < length payoff" "j \<noteq> i" using i by auto
    from j(1) same[OF j]
    show "interpolate_segment_f64 tolerance payoff spot_prices j = Inr None"
      by (rule interpolate_segment_f64_no_sign_change)
  qed
  have after: "\<forall>j\<in>set [i + 1..<length payoff - 1].
      interpolate_segment_f64 tolerance payoff spot_prices j = Inr None"
  proof
    fix j assume "j \<in> set [i + 1..<length payoff - 1]"
    then have j: "j + 1 < length payoff" "j \<noteq> i" by auto
    from j(1) same[OF j]
    show "interpolate_segment_f64 tolerance payoff spot_prices j = Inr None"
      by (rule interpolate_segment_f64_no_sign_change)
  qed
  have split: "[0..<length payoff - 1] = [0..<i] @ [i] @ [i + 1..<length payoff - 1]"
  proof -
    have "i < length payoff - 1" using i by simp
    then have "[0..<length payoff - 1] = [0..<i] @ [i..<length payoff - 1]"
      by (metis le_add_diff_inverse less_imp_le_nat upt_add_eq_append zero_le)
    also have "[i..<length payoff - 1] = i # [i + 1..<length payoff - 1]"
      using \<open>i < length payoff - 1\<close> by (simp add: upt_conv_Cons)
    finally show ?thesis by simp
  qed
  have l1: "breakeven_loop_f64 tolerance payoff spot_prices [0..<i] [] = Inr []"
    by (rule breakeven_loop_f64_skip[OF before])
  have l2: "breakeven_loop_f64 tolerance payoff spot_prices [i] [] = Inr [f64_round price 2]"
    by (simp add: breakeven_body_f64_def seg bind_result_Inr)
  have l3: "breakeven_loop_f64 tolerance payoff spot_prices [i + 1..<length payoff - 1]
      [f64_round price 2] = Inr [f64_round price 2]"
    by (rule breakeven_loop_f64_skip[OF after])
  have "breakeven_loop_f64 tolerance payoff spot_prices [0..<length payoff - 1] [] =
      Inr [f64_round price 2]"
    unfolding split by (simp only: breakeven_loop_f64_append l1 l2 l3 bind_result_Inr)
  then show ?thesis
    by (simp add: find_breakeven_points_f64_def bind_result_Inr)
qed

lemma f64_round_2_error:
  assumes "\<bar>x\<bar> \<le> 10001"
  shows "\<bar>f64_round x 2 - x\<bar> \<le> 1 / 200 + 1 / 10 ^ 10"
proof -
  define t where "t = rnd64 (x * 100)"
  define n where "n = rint t"
  have "\<bar>x * 100\<bar> \<le> 1048576" using assms unfolding abs_le_iff by auto
  then have et: "\<bar>t - x * 100\<bar> \<le> 1 / 2 ^ 33" unfolding t_def by (rule rnd64_error_20)
  have en: "\<bar>of_int n - t\<bar> \<le> 1 / 2" unfolding n_def by (rule rint_close)
  have "\<bar>real_of_int n / 100\<bar> \<le> 16384"
    using et en assms unfolding abs_le_iff by auto
  then have "\<bar>rnd64 (of_int n / 100) - of_int n / 100\<bar> \<le> 1 / 2 ^ 39" by (rule rnd64_error_14)
  then have "\<bar>rnd64 (of_int n / 100) - x\<bar> \<le> 1 / 200 + 1 / 10 ^ 10"
    using et en unfolding abs_le_iff by auto
  then show ?thesis by (simp add: f64_round_def t_def n_def)
qed

lemma interpolate_segment_f64_value:
  assumes "np_get payoff i = Inr p0" "np_get payoff (i + 1) = Inr p1"
    "np_get spot_prices i = Inr s0" "np_get spot_prices (i + 1) = Inr s1"
    "sign_change p0 p1" "tolerance < \<bar>rnd64 (p1 - p0)\<bar>" "rnd64 (p1 - p0) \<noteq> 0"
  shows "interpolate_segment_f64 tolerance payoff spot_prices i =
    Inr (Some (rnd64 (s0 + rnd64 (rnd64 (\<bar>p0\<bar> / \<bar>rnd64 (p1 - p0)\<bar>) * rnd64 (s1 - s0)))))"
  using assms by (simp add: interpolate_segment_f64_def f64_div_def bind_result_Inr)

lemma tolerance_above_subnormal: "(2::real) powi (- 1021) < 1 / 10 ^ 300"
proof -
  have "(10::real) ^ 300 < 2 ^ 1021" by simp
  then have "1 / (2::real) ^ 1021 < 1 / 10 ^ 300"
    by (intro divide_strict_left_mono) simp_all
  moreover have "(2::real) powi (- 1021) = 1 / 2 ^ 1021"
    by (simp add: power_int_minus_divide)
  ultimately show ?thesis by simp
qed

text \<open>A computed difference above the tolerance is the difference of a normal number.\<close>

lemma computed_difference_normal:
  assumes "\<bar>rnd64 x\<bar> > tolerance" "1 / 10 ^ 300 \<le> tolerance"
  shows "2 powi (- 1022) \<le> \<bar>x\<bar>"
proof (rule ccontr)
  assume "\<not> 2 powi (- 1022) \<le> \<bar>x\<bar>"
  then have small: "\<bar>x\<bar> \<le> 2 powi (- 1022)" by simp
  then have "\<bar>rnd64 x - x\<bar> \<le> 2 powi (- 1022 - 53)" by (rule rnd64_error) simp
  moreover have "(2::real) powi (- 1022 - 53) \<le> 2 powi (- 1022)"
    by (intro power_int_increasing) simp_all
  ultimately have "\<bar>rnd64 x\<bar> \<le> 2 * 2 powi (- 1022)" using small by linarith
  also have "2 * (2::real) powi (- 1022) = 2 powi (- 1021)"
    using two_powi_Suc[of "- 1022"] by simp
  finally show False using assms tolerance_above_subnormal by linarith
qed

lemma interpolation_ratio_error:
  assumes opp: "(p0 < 0 \<and> 0 < p1) \<or> (0 < p0 \<and> p1 < 0)"
    and normal: "2 powi (- 1022) \<le> \<bar>p1 - p0\<bar>"
  shows "rnd64 (p1 - p0) \<noteq> 0 \<and>
    \<bar>rnd64 (\<bar>p0\<bar> / \<bar>rnd64 (p1 - p0)\<bar>) - \<bar>p0\<bar> / \<bar>p1 - p0\<bar>\<bar> \<le> 3 / 2 ^ 52 \<and>
    0 \<le> \<bar>p0\<bar> / \<bar>p1 - p0\<bar> \<and> \<bar>p0\<bar> / \<bar>p1 - p0\<bar> \<le> 1"
proof -
  define d where "d = \<bar>p1 - p0\<bar>"
  define D where "D = \<bar>rnd64 (p1 - p0)\<bar>"
  define r where "r = \<bar>p0\<bar> / d"
  define q where "q = \<bar>p0\<bar> / D"
  define eps :: real where "eps = 1 / 2 ^ 52"
  have d_pos: "0 < d" using opp by (auto simp: d_def)
  have p0_le: "\<bar>p0\<bar> \<le> d" using opp by (auto simp: d_def)
  have r: "0 \<le> r" "r \<le> 1" using d_pos p0_le by (simp_all add: r_def)
  have eps: "(2::real) powi (- 52) = eps" by (simp add: eps_def power_int_minus_divide)
  have rel: "\<bar>rnd64 (p1 - p0) - (p1 - p0)\<bar> \<le> eps * d"
    using rnd64_relative[OF normal] unfolding eps d_def .
  have "\<bar>D - d\<bar> \<le> \<bar>rnd64 (p1 - p0) - (p1 - p0)\<bar>"
    unfolding D_def d_def by (rule abs_triangle_ineq3)
  with rel have Dd: "\<bar>D - d\<bar> \<le> eps * d" by linarith
  have "eps * d \<le> d / 2" using d_pos by (simp add: eps_def)
  with Dd have D_lo: "d \<le> 2 * D" unfolding abs_le_iff by linarith
  then have D_pos: "0 < D" using d_pos by linarith
  have q_nonneg: "0 \<le> q" using D_pos by (simp add: q_def)
  have q_le: "q \<le> 2"
    unfolding q_def using D_pos p0_le D_lo by (simp add: pos_divide_le_eq)
  have "(q - r) * D = r * (d - D)"
    using D_pos d_pos by (simp add: q_def r_def field_simps)
  then have "\<bar>q - r\<bar> * D = r * \<bar>d - D\<bar>"
    using D_pos r(1) by (metis abs_mult abs_of_nonneg abs_of_pos)
  also have "\<dots> \<le> 1 * (eps * d)"
    using r Dd by (intro mult_mono) (simp_all add: abs_minus_commute)
  also have "\<dots> \<le> (2 * eps) * D"
    using D_lo by (simp add: eps_def)
  finally have qr: "\<bar>q - r\<bar> \<le> 2 * eps"
    using D_pos by (simp add: mult_le_cancel_right)
  have "\<bar>q\<bar> \<le> 2" using q_nonneg q_le by simp
  then have "\<bar>rnd64 q - q\<bar> \<le> 1 / 2 ^ 52" by (rule rnd64_error_1)
  then have "\<bar>rnd64 q - r\<bar> \<le> 3 / 2 ^ 52"
    using qr unfolding abs_le_iff eps_def by auto
  moreover have "rnd64 (p1 - p0) \<noteq> 0" using D_pos by (auto simp: D_def)
  ultimately show ?thesis
    using r by (simp add: q_def r_def D_def d_def)
qed

lemma interpolation_price_error:
  assumes ratio: "\<bar>ratio - r\<bar> \<le> 3 / 2 ^ 52" "0 \<le> r" "r \<le> 1"
    and grid: "0 \<le> s0" "s0 \<le> 5000" "0 \<le> s1" "s1 \<le> 5000"
  shows "\<bar>rnd64 (s0 + rnd64 (ratio * rnd64 (s1 - s0))) - (s0 + r * (s1 - s0))\<bar> \<le> 1 / 10 ^ 10 \<and>
    \<bar>rnd64 (s0 + rnd64 (ratio * rnd64 (s1 - s0)))\<bar> \<le> 10001"
proof -
  define g where "g = rnd64 (s1 - s0)"
  define m where "m = rnd64 (ratio * g)"
  have "\<bar>s1 - s0\<bar> \<le> 8192" using grid unfolding abs_le_iff by auto
  then have eg: "\<bar>g - (s1 - s0)\<bar> \<le> 1 / 2 ^ 40" unfolding g_def by (rule rnd64_error_13)
  have g: "\<bar>g\<bar> \<le> 5001" using eg grid unfolding abs_le_iff by auto
  have r: "\<bar>r\<bar> \<le> 1" using ratio(2,3) by simp
  have prod: "\<bar>ratio * g - r * (s1 - s0)\<bar> \<le> 3 / 2 ^ 52 * 5001 + 1 * (1 / 2 ^ 40)"
    using ratio(1) eg g r by (rule product_error)
  have "\<bar>r * (s1 - s0)\<bar> \<le> 1 * 5000"
    unfolding abs_mult using r grid by (intro mult_mono) (auto simp: abs_le_iff)
  then have rd: "\<bar>r * (s1 - s0)\<bar> \<le> 5000" by simp
  then have "\<bar>ratio * g\<bar> \<le> 8192" using prod unfolding abs_le_iff by auto
  then have em: "\<bar>m - ratio * g\<bar> \<le> 1 / 2 ^ 40" unfolding m_def by (rule rnd64_error_13)
  have "\<bar>s0 + m\<bar> \<le> 16384" using em prod rd grid unfolding abs_le_iff by auto
  then have "\<bar>rnd64 (s0 + m) - (s0 + m)\<bar> \<le> 1 / 2 ^ 39" by (rule rnd64_error_14)
  then have "\<bar>rnd64 (s0 + m) - (s0 + r * (s1 - s0))\<bar> \<le> 1 / 10 ^ 10 \<and>
      \<bar>rnd64 (s0 + m)\<bar> \<le> 10001"
    using em prod rd grid unfolding abs_le_iff by auto
  then show ?thesis by (simp add: m_def g_def)
qed

text \<open>
  Two values next to a tie of the second decimal, as numpy rounds them. The float64
  nearest \<open>2.675\<close> lies below the tie and still becomes \<open>2.68\<close>: the multiplication by
  100 rounds it onto the tie \<open>267.5\<close> first. The float64 nearest \<open>0.545\<close> lies above the
  tie and becomes \<open>0.55\<close>.
\<close>

lemma f64_round_near_ties:
  "f64_round (rnd64 (2675 / 1000)) 2 = rnd64 (268 / 100) \<and>
   rnd64 (2675 / 1000) < 2675 / 1000 \<and>
   f64_round (rnd64 (545 / 1000)) 2 = rnd64 (55 / 100) \<and>
   545 / 1000 < rnd64 (545 / 1000)"
proof -
  define xa where "xa = rnd64 (2675 / 1000)"
  have xa_v: "xa = 3011782250804019 / 1125899906842624"
    unfolding xa_def by (simp add: rnd64_def ilog2_numeral rint_def Let_def power_int_minus)
  define ta where "ta = rnd64 (xa * 10 ^ 2)"
  have ta_v: "ta = 535 / 2"
    unfolding ta_def by (simp only: xa_v) (simp add: rnd64_def ilog2_numeral rint_def Let_def power_int_minus)
  define va where "va = rnd64 (real_of_int (rint ta) / 10 ^ 2)"
  have va_v: "va = 6034823500676465 / 2251799813685248"
    unfolding va_def by (simp only: ta_v) (simp add: rnd64_def ilog2_numeral rint_def Let_def power_int_minus)
  define ea where "ea = rnd64 (268 / 100)"
  have ea_v: "ea = 6034823500676465 / 2251799813685248"
    unfolding ea_def by (simp add: rnd64_def ilog2_numeral rint_def Let_def power_int_minus)
  define xb where "xb = rnd64 (545 / 1000)"
  have xb_v: "xb = 4908923593833841 / 9007199254740992"
    unfolding xb_def by (simp add: rnd64_def ilog2_numeral rint_def Let_def power_int_minus)
  define tb where "tb = rnd64 (xb * 10 ^ 2)"
  have tb_v: "tb = 7670193115365377 / 140737488355328"
    unfolding tb_def by (simp only: xb_v) (simp add: rnd64_def ilog2_numeral rint_def Let_def power_int_minus)
  define vb where "vb = rnd64 (real_of_int (rint tb) / 10 ^ 2)"
  have vb_v: "vb = 2476979795053773 / 4503599627370496"
    unfolding vb_def by (simp only: tb_v) (simp add: rnd64_def ilog2_numeral rint_def Let_def power_int_minus)
  define eb where "eb = rnd64 (55 / 100)"
  have eb_v: "eb = 2476979795053773 / 4503599627370496"
    unfolding eb_def by (simp add: rnd64_def ilog2_numeral rint_def Let_def power_int_minus)
  have "f64_round xa 2 = va" "f64_round xb 2 = vb"
    unfolding f64_round_def va_def ta_def vb_def tb_def by (rule refl)+
  then have "f64_round xa 2 = ea" "f64_round xb 2 = eb"
    by (simp_all only: va_v vb_v ea_v eb_v)
  moreover have "xa < 2675 / 1000" "545 / 1000 < xb"
    by (simp_all add: xa_v xb_v)
  ultimately show ?thesis
    unfolding xa_def xb_def ea_def eb_def by (intro conjI)
qed

text \<open>
  Claim C7, as stated: for a payoff vector that changes sign exactly once, strictly
  between the grid points \<open>i\<close> and \<open>i + 1\<close>, on a segment steeper than the tolerance,
  \<^verbatim>\<open>find_breakeven_points\<close> returns exactly one value, within the tolerance of the
  interpolation root. The value is the root rounded to two decimals, so it can be off
  by half a rounding step whatever the tolerance is: with tolerance 0.001, payoff
  \<open>[-1, 2]\<close> on the grid \<open>[0, 5]\<close> has the root \<open>5/3\<close> and returns \<open>1.67\<close>, more than
  0.001 away, in exact arithmetic and in float64 alike.
\<close>

theorem C7_rounding_counterexample:
  "crosses_once_at [- 1, 2] 0 \<and>
   \<bar>[- 1, 2 :: real] ! (0 + 1) - [- 1, 2] ! 0\<bar> > 0.001 \<and>
   find_breakeven_points [- 1, 2] [0, 5] 0.001 = Inr {1.67} \<and>
   \<not> \<bar>1.67 - ([0, 5 :: real] ! 0 +
        \<bar>[- 1, 2 :: real] ! 0\<bar> / \<bar>[- 1, 2 :: real] ! (0 + 1) - [- 1, 2] ! 0\<bar> *
        ([0, 5] ! (0 + 1) - [0, 5] ! 0))\<bar> \<le> (0.001 :: real) \<and>
   find_breakeven_points_f64 [- 1, 2] [0, 5] (rnd64 (1 / 1000))
     = Inr {940126422213591 / 562949953421312} \<and>
   \<not> \<bar>940126422213591 / 562949953421312 - (0 + \<bar>- 1\<bar> / \<bar>2 - - 1\<bar> * (5 - 0))\<bar>
       \<le> rnd64 (1 / 1000)"
proof -
  have exact: "crosses_once_at [- 1, 2] 0 \<and>
   \<bar>[- 1, 2 :: real] ! (0 + 1) - [- 1, 2] ! 0\<bar> > 0.001 \<and>
   find_breakeven_points [- 1, 2] [0, 5] 0.001 = Inr {1.67} \<and>
   \<not> \<bar>1.67 - ([0, 5 :: real] ! 0 +
        \<bar>[- 1, 2 :: real] ! 0\<bar> / \<bar>[- 1, 2 :: real] ! (0 + 1) - [- 1, 2] ! 0\<bar> *
        ([0, 5] ! (0 + 1) - [0, 5] ! 0))\<bar> \<le> (0.001 :: real)"
    by (simp add: crosses_once_at_def find_breakeven_points_def breakeven_body_def
        interpolate_segment_def np_get_def np_div_def sign_change_def bind_result_def
        py_round_def rint_def Let_def)
  define tol where "tol = rnd64 (1 / 1000)"
  have tol_v: "tol = 1152921504606847 / 1152921504606846976"
    unfolding tol_def by (simp add: rnd64_def ilog2_numeral rint_def Let_def power_int_minus)
  define x where "x = rnd64 (2 - - 1)"
  have x_v: "x = 3"
    unfolding x_def by (simp add: rnd64_def ilog2_numeral rint_def Let_def power_int_minus)
  define ratio where "ratio = rnd64 (\<bar>- 1\<bar> / \<bar>x\<bar>)"
  have ratio_v: "ratio = 6004799503160661 / 18014398509481984"
    unfolding ratio_def by (simp only: x_v) (simp add: rnd64_def ilog2_numeral rint_def Let_def power_int_minus)
  define gap where "gap = rnd64 (5 - 0)"
  have gap_v: "gap = 5"
    unfolding gap_def by (simp add: rnd64_def ilog2_numeral rint_def Let_def power_int_minus)
  define m where "m = rnd64 (ratio * gap)"
  have m_v: "m = 3752999689475413 / 2251799813685248"
    unfolding m_def by (simp only: ratio_v gap_v) (simp add: rnd64_def ilog2_numeral rint_def Let_def power_int_minus)
  define price where "price = rnd64 (0 + m)"
  have price_v: "price = 3752999689475413 / 2251799813685248"
    unfolding price_def by (simp only: m_v) (simp add: rnd64_def ilog2_numeral rint_def Let_def power_int_minus)
  define t where "t = rnd64 (price * 10 ^ 2)"
  have t_v: "t = 5864062014805333 / 35184372088832"
    unfolding t_def by (simp only: price_v) (simp add: rnd64_def ilog2_numeral rint_def Let_def power_int_minus)
  define v where "v = rnd64 (real_of_int (rint t) / 10 ^ 2)"
  have v_v: "v = 940126422213591 / 562949953421312"
    unfolding v_def by (simp only: t_v) (simp add: rnd64_def ilog2_numeral rint_def Let_def power_int_minus)
  have seg: "interpolate_segment_f64 (rnd64 (1 / 1000)) [- 1, 2] [0, 5] 0 = Inr (Some price)"
    unfolding price_def m_def gap_def ratio_def x_def
  proof (rule interpolate_segment_f64_value)
    show "np_get [- 1, 2] 0 = Inr (- 1)" by (simp add: np_get_def)
    show "np_get [- 1, 2] (0 + 1) = Inr 2" by (simp add: np_get_def)
    show "np_get [0, 5] 0 = Inr 0" by (simp add: np_get_def)
    show "np_get [0, 5] (0 + 1) = Inr 5" by (simp add: np_get_def)
    show "sign_change (- 1) 2" by (simp add: sign_change_def)
    show "rnd64 (1 / 1000) < \<bar>rnd64 (2 - - 1)\<bar>"
      by (simp only: x_def[symmetric] x_v, (simp only: tol_v[unfolded tol_def])?, simp?)
    show "rnd64 (2 - - 1) \<noteq> 0"
      by (simp only: x_def[symmetric] x_v, simp?)
  qed
  have round: "f64_round price 2 = v"
    unfolding f64_round_def v_def t_def ..
  have cross: "crosses_once_at [- 1, 2] 0" by (simp add: crosses_once_at_def)
  have find: "find_breakeven_points_f64 [- 1, 2] [0, 5] (rnd64 (1 / 1000)) = Inr {940126422213591 / 562949953421312}"
    using find_breakeven_points_f64_single[OF cross seg] by (simp only: round v_v)
  have far: "\<not> \<bar>940126422213591 / 562949953421312 - (0 + \<bar>- 1\<bar> / \<bar>2 - - 1\<bar> * (5 - 0))\<bar>
       \<le> rnd64 (1 / 1000)"
    by (simp only: tol_v[unfolded tol_def], simp?)
  show ?thesis using exact find far by (intro conjI) (simp_all only: simp_thms)
qed

text \<open>
  Claim C7, amended: for a payoff vector that changes sign exactly once, strictly between
  the grid points \<open>i\<close> and \<open>i + 1\<close>, with the computed \<open>\<bar>payoff[i+1] - payoff[i]\<bar>\<close> above
  the tolerance, a tolerance of at least \<open>10 ^ (- 300)\<close>, the two payoffs of magnitude at
  most \<open>10 ^ 300\<close>, and a grid of the same length whose prices \<open>spotPrices[i]\<close> and
  \<open>spotPrices[i+1]\<close> lie in \<open>[0, 5000]\<close>, \<^verbatim>\<open>find_breakeven_points\<close> in float64 returns
  exactly one value, and that value is within \<open>0.005 + 10 ^ (- 9)\<close> of the exact
  interpolation root
  \<open>spotPrices[i] + (\<bar>payoff[i]\<bar> / \<bar>payoff[i+1] - payoff[i]\<bar>) * (spotPrices[i+1] - spotPrices[i])\<close>;
  so it is within the tolerance whenever the tolerance is at least 0.0051, as the
  default 0.01 is.
\<close>

theorem C7_single_crossing_float:
  assumes cross: "crosses_once_at payoff i"
    and len: "length spot_prices = length payoff"
    and slope: "\<bar>rnd64 (payoff ! (i + 1) - payoff ! i)\<bar> > tolerance"
    and tol: "1 / 10 ^ 300 \<le> tolerance"
    and grid: "0 \<le> spot_prices ! i" "spot_prices ! i \<le> 5000"
      "0 \<le> spot_prices ! (i + 1)" "spot_prices ! (i + 1) \<le> 5000"
    and size: "\<bar>payoff ! i\<bar> \<le> 10 ^ 300" "\<bar>payoff ! (i + 1)\<bar> \<le> 10 ^ 300"
  shows "\<exists>v. find_breakeven_points_f64 payoff spot_prices tolerance = Inr {v} \<and>
     \<bar>v - (spot_prices ! i +
        \<bar>payoff ! i\<bar> / \<bar>payoff ! (i + 1) - payoff ! i\<bar> * (spot_prices ! (i + 1) - spot_prices ! i))\<bar>
      \<le> 1 / 200 + 1 / 10 ^ 9"
proof -
  define p0 where "p0 = payoff ! i"
  define p1 where "p1 = payoff ! (i + 1)"
  define s0 where "s0 = spot_prices ! i"
  define s1 where "s1 = spot_prices ! (i + 1)"
  define r where "r = \<bar>p0\<bar> / \<bar>p1 - p0\<bar>"
  define ratio where "ratio = rnd64 (\<bar>p0\<bar> / \<bar>rnd64 (p1 - p0)\<bar>)"
  define price where "price = rnd64 (s0 + rnd64 (ratio * rnd64 (s1 - s0)))"
  have i: "i + 1 < length payoff" using cross by (simp add: crosses_once_at_def)
  have opp: "(p0 < 0 \<and> 0 < p1) \<or> (0 < p0 \<and> p1 < 0)"
    using crosses_once_at_signs[OF cross]
  proof
    assume a: "\<forall>j<length payoff. if j \<le> i then payoff ! j < 0 else 0 < payoff ! j"
    show ?thesis
      using a[rule_format, of i] a[rule_format, of "i + 1"] i by (simp add: p0_def p1_def)
  next
    assume a: "\<forall>j<length payoff. if j \<le> i then 0 < payoff ! j else payoff ! j < 0"
    show ?thesis
      using a[rule_format, of i] a[rule_format, of "i + 1"] i by (simp add: p0_def p1_def)
  qed
  have sc: "sign_change p0 p1" using opp by (auto simp: sign_change_def)
  have normal: "2 powi (- 1022) \<le> \<bar>p1 - p0\<bar>"
    using slope tol unfolding p0_def p1_def by (rule computed_difference_normal)
  from interpolation_ratio_error[OF opp normal]
  have nz: "rnd64 (p1 - p0) \<noteq> 0" and er: "\<bar>ratio - r\<bar> \<le> 3 / 2 ^ 52" and r: "0 \<le> r" "r \<le> 1"
    by (simp_all add: ratio_def r_def)
  from interpolation_price_error[OF er r, of s0 s1] grid
  have ep: "\<bar>price - (s0 + r * (s1 - s0))\<bar> \<le> 1 / 10 ^ 10" and pr: "\<bar>price\<bar> \<le> 10001"
    by (simp_all add: price_def s0_def s1_def)
  have seg: "interpolate_segment_f64 tolerance payoff spot_prices i = Inr (Some price)"
    using i len slope sc nz
    by (simp add: interpolate_segment_f64_def np_get_def f64_div_def bind_result_Inr
        p0_def p1_def s0_def s1_def price_def ratio_def)
  have find: "find_breakeven_points_f64 payoff spot_prices tolerance = Inr {f64_round price 2}"
    using cross seg by (rule find_breakeven_points_f64_single)
  have "\<bar>f64_round price 2 - price\<bar> \<le> 1 / 200 + 1 / 10 ^ 10"
    using pr by (rule f64_round_2_error)
  then have "\<bar>f64_round price 2 - (s0 + r * (s1 - s0))\<bar> \<le> 1 / 200 + 1 / 10 ^ 9"
    using ep unfolding abs_le_iff by auto
  then show ?thesis
    using find by (auto simp: r_def p0_def p1_def s0_def s1_def)
qed

theorem C7_single_crossing_float_witness:
  "crosses_once_at [- 3, - 1, 2, 7] 1 \<and>
   find_breakeven_points_f64 [- 3, - 1, 2, 7] [0, 5, 10, 15] (rnd64 (1 / 100))
     = Inr {3754876189320151 / 562949953421312} \<and>
   \<bar>3754876189320151 / 562949953421312 - 20 / 3\<bar> \<le> (1 / 200 + 1 / 10 ^ 9 :: real)"
proof -
  define tol where "tol = rnd64 (1 / 100)"
  have tol_v: "tol = 5764607523034235 / 576460752303423488"
    unfolding tol_def by (simp add: rnd64_def ilog2_numeral rint_def Let_def power_int_minus)
  define x where "x = rnd64 (2 - - 1)"
  have x_v: "x = 3"
    unfolding x_def by (simp add: rnd64_def ilog2_numeral rint_def Let_def power_int_minus)
  define ratio where "ratio = rnd64 (\<bar>- 1\<bar> / \<bar>x\<bar>)"
  have ratio_v: "ratio = 6004799503160661 / 18014398509481984"
    unfolding ratio_def by (simp only: x_v) (simp add: rnd64_def ilog2_numeral rint_def Let_def power_int_minus)
  define gap where "gap = rnd64 (10 - 5)"
  have gap_v: "gap = 5"
    unfolding gap_def by (simp add: rnd64_def ilog2_numeral rint_def Let_def power_int_minus)
  define m where "m = rnd64 (ratio * gap)"
  have m_v: "m = 3752999689475413 / 2251799813685248"
    unfolding m_def by (simp only: ratio_v gap_v) (simp add: rnd64_def ilog2_numeral rint_def Let_def power_int_minus)
  define price where "price = rnd64 (5 + m)"
  have price_v: "price = 3752999689475413 / 562949953421312"
    unfolding price_def by (simp only: m_v) (simp add: rnd64_def ilog2_numeral rint_def Let_def power_int_minus)
  define t where "t = rnd64 (price * 10 ^ 2)"
  have t_v: "t = 5864062014805333 / 8796093022208"
    unfolding t_def by (simp only: price_v) (simp add: rnd64_def ilog2_numeral rint_def Let_def power_int_minus)
  define v where "v = rnd64 (real_of_int (rint t) / 10 ^ 2)"
  have v_v: "v = 3754876189320151 / 562949953421312"
    unfolding v_def by (simp only: t_v) (simp add: rnd64_def ilog2_numeral rint_def Let_def power_int_minus)
  have seg: "interpolate_segment_f64 (rnd64 (1 / 100)) [- 3, - 1, 2, 7] [0, 5, 10, 15] 1 = Inr (Some price)"
    unfolding price_def m_def gap_def ratio_def x_def
  proof (rule interpolate_segment_f64_value)
    show "np_get [- 3, - 1, 2, 7] 1 = Inr (- 1)" by (simp add: np_get_def)
    show "np_get [- 3, - 1, 2, 7] (1 + 1) = Inr 2" by (simp add: np_get_def)
    show "np_get [0, 5, 10, 15] 1 = Inr 5" by (simp add: np_get_def)
    show "np_get [0, 5, 10, 15] (1 + 1) = Inr 10" by (simp add: np_get_def)
    show "sign_change (- 1) 2" by (simp add: sign_change_def)
    show "rnd64 (1 / 100) < \<bar>rnd64 (2 - - 1)\<bar>"
      by (simp only: x_def[symmetric] x_v, (simp only: tol_v[unfolded tol_def])?, simp?)
    show "rnd64 (2 - - 1) \<noteq> 0"
      by (simp only: x_def[symmetric] x_v, simp?)
  qed
  have round: "f64_round price 2 = v"
    unfolding f64_round_def v_def t_def ..
  have cross: "crosses_once_at [- 3, - 1, 2, 7] 1" by (simp add: crosses_once_at_def)
  have find: "find_breakeven_points_f64 [- 3, - 1, 2, 7] [0, 5, 10, 15] (rnd64 (1 / 100)) = Inr {3754876189320151 / 562949953421312}"
    using find_breakeven_points_f64_single[OF cross seg] by (simp only: round v_v)
  have len: "length [0, 5, 10, 15 :: real] = length [- 3, - 1, 2, 7 :: real]" by simp
  have n: "[- 3, - 1, 2, 7 :: real] ! (1 + 1) = 2" "[- 3, - 1, 2, 7 :: real] ! 1 = - 1"
    by simp_all
  have slope: "rnd64 (1 / 100) < \<bar>rnd64 ([- 3, - 1, 2, 7] ! (1 + 1) - [- 3, - 1, 2, 7] ! 1)\<bar>"
    by (simp only: n x_def[symmetric] x_v, (simp only: tol_v[unfolded tol_def])?, simp?)
  have tol: "1 / 10 ^ 300 \<le> rnd64 (1 / 100)"
    by (simp only: tol_v[unfolded tol_def], simp?)
  have grid: "0 \<le> [0, 5, 10, 15 :: real] ! 1" "[0, 5, 10, 15 :: real] ! 1 \<le> 5000"
    "0 \<le> [0, 5, 10, 15 :: real] ! (1 + 1)" "[0, 5, 10, 15 :: real] ! (1 + 1) \<le> 5000"
    by simp_all
  have size: "\<bar>[- 3, - 1, 2, 7 :: real] ! 1\<bar> \<le> 10 ^ 300"
    "\<bar>[- 3, - 1, 2, 7 :: real] ! (1 + 1)\<bar> \<le> 10 ^ 300"
    by simp_all
  from C7_single_crossing_float [OF cross len slope tol grid size]
  obtain w where w: "find_breakeven_points_f64 [- 3, - 1, 2, 7] [0, 5, 10, 15] (rnd64 (1 / 100)) = Inr {w}"
    "\<bar>w - ([0, 5, 10, 15] ! 1 + \<bar>[- 3, - 1, 2, 7] ! 1\<bar> /
        \<bar>[- 3, - 1, 2, 7] ! (1 + 1) - [- 3, - 1, 2, 7] ! 1\<bar> *
        ([0, 5, 10, 15] ! (1 + 1) - [0, 5, 10, 15] ! 1))\<bar> \<le> 1 / 200 + 1 / 10 ^ 9"
    by blast
  have "w = 3754876189320151 / 562949953421312" using w(1) find by simp
  then have "\<bar>3754876189320151 / 562949953421312 - 20 / 3\<bar> \<le> (1 / 200 + 1 / 10 ^ 9 :: real)"
    using w(2) by simp
  then show ?thesis using cross find by (intro conjI)
qed

end
